theory Spec2Isabelle
  imports Complex_Main "HOL-Library.Sublist"
begin

section \<open>JavaScript values used by the dashboard\<close>

text \<open>
  A finite JavaScript number is a double, modelled by the rational it is. A literal of
  the data (an amount as the ERP or the JSON text writes it) is read as the nearest
  double, and an addition gives the nearest double of the exact sum, as IEEE-754
  prescribes for binary64: round to nearest, ties to even, on a significand of 53 bits
  with exponents from -1022 on. Magnitudes from \<open>2 ^ 1024\<close> on, which a double holds as
  an infinity, are not modelled. The three non-finite numbers are kept as values of
  their own, so that a division by zero or an addition to a missing property is
  visible in the model as \<open>Infinity\<close> or \<open>NaN\<close>.
\<close>

text \<open>The number of binary digits of a positive integer.\<close>

function bitLength :: "int \<Rightarrow> nat" where
  "bitLength n = (if n \<le> 0 then 0 else Suc (bitLength (n div 2)))"
  by auto
termination
  by (relation "measure nat") auto

declare bitLength.simps [simp del]

definition pow2 :: "int \<Rightarrow> rat" where
  "pow2 k = (if 0 \<le> k then 2 ^ nat k else 1 / 2 ^ nat (- k))"

text \<open>The binary exponent of a positive rational \<open>x\<close>: \<open>pow2 e \<le> x < pow2 (e + 1)\<close>.\<close>

definition ilog2 :: "rat \<Rightarrow> int" where
  "ilog2 x =
     (let d = int (bitLength (fst (quotient_of x))) - int (bitLength (snd (quotient_of x)))
      in if pow2 d \<le> x then d else d - 1)"

text \<open>The nearest integer, the even one of the two when they are equally near.\<close>

definition roundEven :: "rat \<Rightarrow> int" where
  "roundEven y =
     (let f = \<lfloor>y\<rfloor>; r = y - of_int f
      in if r < 1 / 2 then f else if 1 / 2 < r then f + 1 else if even f then f else f + 1)"

text \<open>The double nearest to a rational: a multiple of the spacing of its binade.\<close>

definition toDouble :: "rat \<Rightarrow> rat" where
  "toDouble x =
     (if x = 0 then 0
      else (let e = max (ilog2 \<bar>x\<bar>) (- 1022); u = pow2 (e - 52)
            in of_int (roundEven (x / u)) * u))"

text \<open>The operator \<open>a + b\<close> on two doubles.\<close>

definition plus64 :: "rat \<Rightarrow> rat \<Rightarrow> rat" where
  "plus64 a b = toDouble (a + b)"

text \<open>
  The sum of a list of doubles as the code computes every sum: from 0, one addition
  after the other, from left to right.
\<close>

definition sum64 :: "rat list \<Rightarrow> rat" where
  "sum64 xs = foldl plus64 0 xs"

datatype jsnum = Num rat | NaN | PosInfinity | NegInfinity

text \<open>
  The operator \<open>a / b\<close> on two finite numbers. The quotient is kept as the exact
  quotient of the two doubles: its rounding to a double is not modelled.
\<close>

definition js_div :: "rat \<Rightarrow> rat \<Rightarrow> jsnum" where
  "js_div a b =
     (if b = 0 then (if a = 0 then NaN else if 0 < a then PosInfinity else NegInfinity)
      else Num (a / b))"

text \<open>The operator \<open>a + b\<close> on two numbers.\<close>

fun js_add :: "jsnum \<Rightarrow> jsnum \<Rightarrow> jsnum" where
  "js_add (Num a) (Num b) = Num (plus64 a b)"
| "js_add NaN _ = NaN"
| "js_add _ NaN = NaN"
| "js_add PosInfinity NegInfinity = NaN"
| "js_add NegInfinity PosInfinity = NaN"
| "js_add PosInfinity _ = PosInfinity"
| "js_add _ PosInfinity = PosInfinity"
| "js_add NegInfinity _ = NegInfinity"
| "js_add _ NegInfinity = NegInfinity"

text \<open>
  \<open>x || 0\<close> for a property that holds a finite number or is missing (\<open>undefined\<close>,
  \<open>null\<close>, \<open>false\<close>): the double that the literal of the number denotes, and 0 for a
  missing one (a number 0 is falsy and gives 0 as well).
\<close>

definition or0 :: "rat option \<Rightarrow> rat" where
  "or0 v = (case v of None \<Rightarrow> 0 | Some a \<Rightarrow> toDouble a)"

text \<open>A thrown value: only its \<open>message\<close> is read by the handlers.\<close>

datatype exn = JsError (message: string)

section \<open>The remote API client (src/lib/odoo.js)\<close>

record env =
  ODOO_URL :: "string option"
  ODOO_DB :: "string option"
  ODOO_USERNAME :: "string option"
  ODOO_PASSWORD :: "string option"
  ODOO_CUSTOMER_REF :: "string option"

text \<open>\<open>!v\<close> for an environment variable: unset, or set to the empty string.\<close>

definition unset :: "string option \<Rightarrow> bool" where
  "unset v = (case v of None \<Rightarrow> True | Some s \<Rightarrow> s = [])"

record odooConfig =
  url :: string
  db :: string
  username :: string
  password :: string

definition getOdooConfig :: "env \<Rightarrow> exn + odooConfig" where
  "getOdooConfig e =
     (case (ODOO_URL e, ODOO_DB e, ODOO_USERNAME e, ODOO_PASSWORD e) of
        (Some u, Some d, Some n, Some p) \<Rightarrow>
          (if u = [] \<or> d = [] \<or> n = [] \<or> p = []
           then Inl (JsError ''Missing Odoo environment variables'')
           else Inr \<lparr>url = u, db = d, username = n, password = p\<rparr>)
      | _ \<Rightarrow> Inl (JsError ''Missing Odoo environment variables''))"

text \<open>
  The rows the ERP returns, as far as the handlers read them. A many2one field is the
  pair \<open>[id, display name]\<close>, or \<open>false\<close> (\<open>None\<close>) when it is empty.
\<close>

record partner =
  partner_id :: int
  partner_name :: string
  child_ids :: "int list"

record invoice =
  inv_id :: int
  inv_name :: string
  invoice_date :: string
  amount_total :: "rat option"
  amount_untaxed :: "rat option"
  amount_tax :: "rat option"
  partner_shipping_id :: "(int \<times> string) option"
  move_type :: string
  state :: string

record move_row =
  invoice_line_ids :: "int list option"

record move_line =
  line_id :: int
  line_name :: "string option"
  product_id :: "(int \<times> string) option"
  quantity :: "rat option"
  price_unit :: "rat option"
  price_subtotal :: "rat option"
  discount :: "rat option"
  display_type :: "string option"
  account_id :: "(int \<times> string) option"

text \<open>
  The ERP is outside the repository: it is a parameter of the model. Each field is
  what the ERP answers to one of the calls the handlers make, as a function of the
  value the handler puts into the query: a fault (\<open>Inl\<close>), or the result of the call,
  where \<open>None\<close> is a result that is not an array (\<open>null\<close>, \<open>false\<close>).
  A search for an invoice id takes \<open>None\<close> for the \<open>NaN\<close> that \<open>parseInt\<close>
  gives on a parameter that is no number.
\<close>

record remote =
  authenticate :: "exn + int option"
  read_partners :: "string \<Rightarrow> exn + partner list option"
  read_invoices :: "int \<Rightarrow> exn + invoice list option"
  read_move :: "int option \<Rightarrow> exn + move_row list option"
  read_lines_by_id :: "int list \<Rightarrow> exn + move_line list option"
  read_lines_filtered :: "int option \<Rightarrow> exn + move_line list option"
  read_lines_raw :: "int option \<Rightarrow> exn + move_line list option"

definition odooLogin :: "env \<Rightarrow> remote \<Rightarrow> exn + int" where
  "odooLogin e r =
     (case getOdooConfig e of
        Inl x \<Rightarrow> Inl x
      | Inr cfg \<Rightarrow>
          (case authenticate r of
             Inl err \<Rightarrow> Inl err
           | Inr None \<Rightarrow>
               Inl (JsError ''Authentication failed: No UID returned (check credentials)'')
           | Inr (Some uid) \<Rightarrow>
               (if uid = 0
                then Inl (JsError ''Authentication failed: No UID returned (check credentials)'')
                else Inr uid)))"

text \<open>
  \<open>odooSearchRead\<close>: read the configuration, authenticate, then make the call;
  \<open>answer\<close> is what the ERP answers to the \<open>search_read\<close> itself.
\<close>

definition odooSearchRead :: "env \<Rightarrow> remote \<Rightarrow> (exn + 'a) \<Rightarrow> exn + 'a" where
  "odooSearchRead e r answer =
     (case getOdooConfig e of
        Inl x \<Rightarrow> Inl x
      | Inr cfg \<Rightarrow>
          (case odooLogin e r of
             Inl x \<Rightarrow> Inl x
           | Inr uid \<Rightarrow> answer))"

section \<open>The aggregation endpoint: the stats operation\<close>

record order_summary =
  order_id :: int
  order_name :: string
  order_date :: string
  amount :: rat

record bucket =
  bucket_count :: nat
  bucket_total :: rat
  bucket_orders :: "order_summary list"

record kpi =
  revenue :: rat
  orders :: nat
  items :: nat
  avgOrderValue :: jsnum

text \<open>
  \<open>salesByAddress\<close> is an object used as a dictionary: its keys with their values, in
  the order the keys were added.
\<close>

type_synonym sales = "(string \<times> bucket) list"

record stats =
  customer :: string
  stats_kpi :: kpi
  salesByAddress :: sales
  recentInvoices :: "invoice list"

record invoice_item =
  item_id :: int
  item_name :: string
  item_quantity :: rat
  item_price_unit :: rat
  item_raw_subtotal :: rat
  item_account_id :: "int option"
  item_display_type :: "string option"

datatype body =
    ErrorBody string
  | StatsBody stats
  | ItemsBody "invoice_item list"

record response =
  status :: nat
  body :: body

text \<open>\<open>NextResponse.json(b)\<close> answers with status 200.\<close>

definition json :: "body \<Rightarrow> response" where
  "json b = \<lparr>status = 200, body = b\<rparr>"

definition json_status :: "body \<Rightarrow> nat \<Rightarrow> response" where
  "json_status b s = \<lparr>status = s, body = b\<rparr>"

text \<open>
  The sign-adjusted total of a document, written twice in the handler (in the loop
  over the invoices and in the map that builds \<open>recentInvoices\<close>): a credit note
  counts with a minus sign, any other document with a plus sign.
\<close>

definition amountTotal :: "invoice \<Rightarrow> rat" where
  "amountTotal iv =
     (let a = or0 (amount_total iv)
      in if move_type iv = ''out_refund'' then - \<bar>a\<bar> else \<bar>a\<bar>)"

definition addressName :: "invoice \<Rightarrow> string" where
  "addressName iv =
     (case partner_shipping_id iv of None \<Rightarrow> ''Unknown'' | Some (i, n) \<Rightarrow> n)"

text \<open>
  \<open>salesByAddress\<close> starts as the object literal \<open>{}\<close>, so a key that
  \<open>Object.prototype\<close> defines is found on it before any bucket was stored: the handler
  then takes the inherited member for the bucket, and \<open>.orders.push\<close> on it throws a
  \<open>TypeError\<close>, because the member has no \<open>orders\<close>.
\<close>

definition objectPrototypeKeys :: "string list" where
  "objectPrototypeKeys =
     [''constructor'', ''__defineGetter__'', ''__defineSetter__'', ''hasOwnProperty'',
      ''__lookupGetter__'', ''__lookupSetter__'', ''isPrototypeOf'',
      ''propertyIsEnumerable'', ''toString'', ''valueOf'', ''__proto__'',
      ''toLocaleString'']"

definition pushOnUndefined :: exn where
  "pushOnUndefined =
     JsError (''Cannot read properties of undefined (reading '' @ [CHR 0x27] @ ''push''
              @ [CHR 0x27] @ '')'')"

definition emptyBucket :: bucket where
  "emptyBucket = \<lparr>bucket_count = 0, bucket_total = 0, bucket_orders = []\<rparr>"

text \<open>\<open>if (!salesByAddress[k]) salesByAddress[k] = {count: 0, total: 0, orders: []}\<close>\<close>

definition ensureBucket :: "string \<Rightarrow> sales \<Rightarrow> sales" where
  "ensureBucket k s = (if map_of s k = None then s @ [(k, emptyBucket)] else s)"

definition addOrder :: "order_summary \<Rightarrow> bucket \<Rightarrow> bucket" where
  "addOrder ord b =
     \<lparr>bucket_count = bucket_count b + 1,
      bucket_total = plus64 (bucket_total b) (amount ord),
      bucket_orders = bucket_orders b @ [ord]\<rparr>"

definition updateBucket :: "string \<Rightarrow> order_summary \<Rightarrow> sales \<Rightarrow> sales" where
  "updateBucket k ord s = map (\<lambda>(k', b). if k' = k then (k', addOrder ord b) else (k', b)) s"

text \<open>One round of \<open>invoices.forEach\<close>, on the running total and the buckets.\<close>

definition processInvoice :: "rat \<times> sales \<Rightarrow> invoice \<Rightarrow> exn + rat \<times> sales" where
  "processInvoice acc iv =
     (let amt = amountTotal iv;
          totalRevenue = plus64 (fst acc) amt;
          k = addressName iv
      in if k \<in> set objectPrototypeKeys then Inl pushOnUndefined
         else Inr (totalRevenue,
                   updateBucket k
                     \<lparr>order_id = inv_id iv, order_name = inv_name iv,
                      order_date = invoice_date iv, amount = amt\<rparr>
                     (ensureBucket k (snd acc))))"

fun forEachInvoice :: "invoice list \<Rightarrow> rat \<times> sales \<Rightarrow> exn + rat \<times> sales" where
  "forEachInvoice [] acc = Inr acc"
| "forEachInvoice (iv # invs) acc =
     (case processInvoice acc iv of
        Inl e \<Rightarrow> Inl e
      | Inr acc' \<Rightarrow> forEachInvoice invs acc')"

definition lengthOfNull :: exn where
  "lengthOfNull =
     JsError (''Cannot read properties of null (reading '' @ [CHR 0x27] @ ''length''
              @ [CHR 0x27] @ '')'')"

text \<open>Steps 3 and 4 of the handler: the aggregation of the fetched documents.\<close>

definition aggregate :: "partner \<Rightarrow> invoice list \<Rightarrow> exn + stats" where
  "aggregate mainPartner invoices =
     (let totalOrders = length invoices
      in case forEachInvoice invoices (0, []) of
           Inl e \<Rightarrow> Inl e
         | Inr (totalRevenue, sales) \<Rightarrow>
             Inr \<lparr>customer = partner_name mainPartner,
                  stats_kpi =
                    \<lparr>revenue = totalRevenue,
                     orders = totalOrders,
                     items = 0,
                     avgOrderValue =
                       (if totalOrders > 0 then js_div totalRevenue (of_nat totalOrders)
                        else Num 0)\<rparr>,
                  salesByAddress = sales,
                  recentInvoices =
                    map (\<lambda>iv. iv\<lparr>amount_total := Some (amountTotal iv)\<rparr>) invoices\<rparr>)"

text \<open>The body of the inner \<open>try\<close> of the stats branch, after the reference was read.\<close>

definition statsTry :: "env \<Rightarrow> remote \<Rightarrow> string \<Rightarrow> exn + response" where
  "statsTry e r customerRef =
     (case odooSearchRead e r (read_partners r customerRef) of
        Inl x \<Rightarrow> Inl x
      | Inr None \<Rightarrow>
          Inr (json_status (ErrorBody (''Customer with Ref '' @ customerRef @ '' not found'')) 404)
      | Inr (Some []) \<Rightarrow>
          Inr (json_status (ErrorBody (''Customer with Ref '' @ customerRef @ '' not found'')) 404)
      | Inr (Some (mainPartner # _)) \<Rightarrow>
          (case odooSearchRead e r (read_invoices r (partner_id mainPartner)) of
             Inl x \<Rightarrow> Inl x
           | Inr None \<Rightarrow> Inl lengthOfNull
           | Inr (Some invoices) \<Rightarrow>
               (case aggregate mainPartner invoices of
                  Inl x \<Rightarrow> Inl x
                | Inr s \<Rightarrow> Inr (json (StatsBody s)))))"

definition GET_stats :: "env \<Rightarrow> remote \<Rightarrow> response" where
  "GET_stats e r =
     (if unset (ODOO_CUSTOMER_REF e)
      then json_status (ErrorBody ''Missing ODOO_CUSTOMER_REF environment variable'') 500
      else case statsTry e r (case ODOO_CUSTOMER_REF e of None \<Rightarrow> [] | Some s \<Rightarrow> s) of
             Inl x \<Rightarrow> json_status (ErrorBody (''Failed to fetch Odoo data: '' @ message x)) 500
           | Inr resp \<Rightarrow> resp)"

section \<open>The aggregation endpoint: the invoice operation\<close>

text \<open>
  \<open>WhiteSpace\<close> and \<open>LineTerminator\<close> of the language, as far as one-byte characters
  go: what \<open>parseInt\<close> and \<open>trim\<close> skip and what \<open>\s\<close> matches.
\<close>

definition isWhiteSpace :: "char \<Rightarrow> bool" where
  "isWhiteSpace c =
     (c \<in> set [CHR 0x09, CHR 0x0A, CHR 0x0B, CHR 0x0C, CHR 0x0D, CHR 0x20, CHR 0xA0])"

definition digitValue :: "char \<Rightarrow> nat option" where
  "digitValue c =
     (let n = of_char c :: nat
      in if 48 \<le> n \<and> n \<le> 57 then Some (n - 48)
         else if 97 \<le> n \<and> n \<le> 102 then Some (n - 87)
         else if 65 \<le> n \<and> n \<le> 70 then Some (n - 55)
         else None)"

definition isDigit :: "nat \<Rightarrow> char \<Rightarrow> bool" where
  "isDigit radix c = (case digitValue c of None \<Rightarrow> False | Some d \<Rightarrow> d < radix)"

definition digitsValue :: "nat \<Rightarrow> string \<Rightarrow> nat" where
  "digitsValue radix ds = foldl (\<lambda>a c. a * radix + (case digitValue c of None \<Rightarrow> 0 | Some d \<Rightarrow> d)) 0 ds"

text \<open>
  \<open>parseInt(s)\<close> with no radix: leading white space is skipped, a sign is read, a
  prefix \<open>0x\<close> selects base 16, and the longest run of digits is the value; \<open>None\<close> is
  \<open>NaN\<close>, the result when there is no digit.
\<close>

definition parseInt :: "string \<Rightarrow> int option" where
  "parseInt s =
     (let s1 = dropWhile isWhiteSpace s;
          neg = (take 1 s1 = ''-'');
          s2 = (if take 1 s1 = ''-'' \<or> take 1 s1 = ''+'' then drop 1 s1 else s1);
          hex = (take 2 s2 = ''0x'' \<or> take 2 s2 = ''0X'');
          radix = (if hex then 16 else 10);
          s3 = (if hex then drop 2 s2 else s2);
          ds = takeWhile (isDigit radix) s3
      in if ds = [] then None
         else Some (if neg then - int (digitsValue radix ds) else int (digitsValue radix ds)))"

text \<open>\<open>rows || []\<close> for the result of a call.\<close>

definition orEmpty :: "'a list option \<Rightarrow> 'a list" where
  "orEmpty rows = (case rows of None \<Rightarrow> [] | Some xs \<Rightarrow> xs)"

text \<open>
  The test of the first tier: the move was found and its \<open>invoice_line_ids\<close> is an
  array that is not empty. \<open>Some ids\<close> when it is.
\<close>

definition lineIdsOf :: "move_row list option \<Rightarrow> int list option" where
  "lineIdsOf moveRows =
     (case moveRows of
        Some (row # _) \<Rightarrow>
          (case invoice_line_ids row of
             Some (i # ids) \<Rightarrow> Some (i # ids)
           | _ \<Rightarrow> None)
      | _ \<Rightarrow> None)"

text \<open>The filter of the third tier, over the rows of the unfiltered read.\<close>

definition keepLine :: "move_line \<Rightarrow> bool" where
  "keepLine l =
     (let subtotal = or0 (price_subtotal l)
      in if product_id l = None then False
         else if (case display_type l of
                    None \<Rightarrow> False
                  | Some t \<Rightarrow> t \<noteq> [] \<and> t \<in> set [''line_section'', ''line_note'']) then False
         else if \<not> (subtotal > 0) then False
         else True)"

text \<open>
  The inner \<open>try\<close> of the invoice branch: the three tiers. \<open>Inl\<close> is an exception that
  reaches its \<open>catch (err)\<close>; a fault of the second tier is caught on the spot and
  leads to the third tier.
\<close>

definition fetchLines :: "env \<Rightarrow> remote \<Rightarrow> int option \<Rightarrow> exn + move_line list" where
  "fetchLines e r invoiceIdInt =
     (case odooSearchRead e r (read_move r invoiceIdInt) of
        Inl err \<Rightarrow> Inl err
      | Inr moveRows \<Rightarrow>
          (case lineIdsOf moveRows of
             Some lineIds \<Rightarrow>
               (case odooSearchRead e r (read_lines_by_id r lineIds) of
                  Inl err \<Rightarrow> Inl err
                | Inr linesRes \<Rightarrow> Inr (orEmpty linesRes))
           | None \<Rightarrow>
               (case odooSearchRead e r (read_lines_filtered r invoiceIdInt) of
                  Inr srvLines \<Rightarrow> Inr (orEmpty srvLines)
                | Inl srvErr \<Rightarrow>
                    (case odooSearchRead e r (read_lines_raw r invoiceIdInt) of
                       Inl err \<Rightarrow> Inl err
                     | Inr rawLines \<Rightarrow> Inr (filter keepLine (orEmpty rawLines))))))"

text \<open>
  The normalisation of one line for the front end. The two strings \<open>price_unit\<close> and
  \<open>price_subtotal\<close> of the item (\<open>toFixed(2)\<close> of the unit price and of the subtotal) are
  kept as the numbers they print. The products and the quotient of a subtotal that
  the handler computes itself are exact here: their rounding is not modelled.
\<close>

definition normalizeLine :: "move_line \<Rightarrow> invoice_item" where
  "normalizeLine line =
     (let qty = or0 (quantity line);
          unit = or0 (price_unit line);
          disc = or0 (discount line) / 100;
          subtotal = (case price_subtotal line of
                        Some v \<Rightarrow> toDouble v
                      | None \<Rightarrow> unit * qty * (1 - disc))
      in \<lparr>item_id = line_id line,
          item_name =
            (case product_id line of
               Some (i, n) \<Rightarrow>
                 (if n \<noteq> [] then n
                  else case line_name line of
                         Some m \<Rightarrow> (if m \<noteq> [] then m else ''Item'')
                       | None \<Rightarrow> ''Item'')
             | None \<Rightarrow>
                 (case line_name line of
                    Some m \<Rightarrow> (if m \<noteq> [] then m else ''Item'')
                  | None \<Rightarrow> ''Item'')),
          item_quantity = qty,
          item_price_unit = unit,
          item_raw_subtotal = subtotal,
          item_account_id =
            (case account_id line of
               Some (i, n) \<Rightarrow> (if i = 0 then None else Some i)
             | None \<Rightarrow> None),
          item_display_type =
            (case display_type line of
               Some t \<Rightarrow> (if t = [] then None else Some t)
             | None \<Rightarrow> None)\<rparr>)"

definition GET_invoice :: "env \<Rightarrow> remote \<Rightarrow> string option \<Rightarrow> response" where
  "GET_invoice e r invoiceId =
     (if unset invoiceId then json_status (ErrorBody ''Missing invoice id'') 400
      else case fetchLines e r (parseInt (case invoiceId of None \<Rightarrow> [] | Some s \<Rightarrow> s)) of
             Inl err \<Rightarrow> json (ItemsBody [])
           | Inr lines \<Rightarrow> json (ItemsBody (map normalizeLine lines)))"

text \<open>
  The handler. Every exception of the two branches is caught inside them, so the
  outermost \<open>catch\<close> of the source (status 500, \<open>Internal Server Error\<close>) has no case here.
\<close>

definition GET :: "env \<Rightarrow> remote \<Rightarrow> string option \<Rightarrow> string option \<Rightarrow> response" where
  "GET e r type_param id_param =
     (if type_param = Some ''stats'' then GET_stats e r
      else if type_param = Some ''invoice'' then GET_invoice e r id_param
      else json_status (ErrorBody ''Invalid type parameter'') 400)"

section \<open>The presentation layer: what both views share\<close>

text \<open>
  The data of a stats response as the page holds it. An order is typed \<open>any\<close> in the
  source and its amount is read as \<open>o.amount || 0\<close>, so the amount may be missing here.
\<close>

record order =
  o_id :: int
  o_name :: string
  o_date :: string
  o_amount :: "rat option"

record address_stats =
  as_count :: nat
  as_total :: rat
  as_orders :: "order list"

record OdooData =
  data_customer :: string
  data_salesByAddress :: "(string \<times> address_stats) list"

text \<open>
  The calendar fields of a \<open>Date\<close> in the time zone of the browser: the year, the month
  from 0 (January) to 11, and the day of the month from 1.
\<close>

record jsdate =
  getFullYear :: int
  getMonth :: nat
  getDate :: nat

text \<open>
  What the browser decides: \<open>newDate s\<close> is \<open>new Date(s)\<close> read through the three
  getters (\<open>None\<close> is an invalid date, whose getters give \<open>NaN\<close>), and \<open>monthShort m\<close> is
  what \<open>toLocaleString('default', {month: 'short'})\<close> gives for a date of month \<open>m\<close>
  in the locale of the browser.
\<close>

record browser =
  newDate :: "string \<Rightarrow> jsdate option"
  monthShort :: "nat \<Rightarrow> string"

datatype viewBy = Year | Month nat

definition isLeapYear :: "int \<Rightarrow> bool" where
  "isLeapYear y = (if y mod 400 = 0 then True else if y mod 100 = 0 then False else y mod 4 = 0)"

definition monthLength :: "int \<Rightarrow> nat \<Rightarrow> nat" where
  "monthLength y m =
     (if m = 1 then (if isLeapYear y then 29 else 28)
      else if m \<in> set [3, 5, 8, 10] then 30
      else 31)"

text \<open>
  \<open>new Date(year, month + 1, 0).getDate()\<close>: the last day of the month. A year from 0
  to 99 is taken as a year of the 20th century by this constructor, and a month
  beyond 11 runs into the next years. Years beyond the range of \<open>Date\<close> (some 270000
  years around 1970) are not modelled.
\<close>

definition daysInMonth :: "int \<Rightarrow> nat \<Rightarrow> nat" where
  "daysInMonth year month =
     monthLength ((if 0 \<le> year \<and> year \<le> 99 then 1900 + year else year) + int (month div 12))
       (month mod 12)"

text \<open>A date of the calendar: what the getters of a valid \<open>Date\<close> give.\<close>

definition validDate :: "jsdate \<Rightarrow> bool" where
  "validDate d =
     (getMonth d < 12 \<and> 1 \<le> getDate d \<and> getDate d \<le> monthLength (getFullYear d) (getMonth d))"

definition digitChar :: "nat \<Rightarrow> char" where
  "digitChar n = char_of (48 + n)"

text \<open>\<open>n.toString()\<close> for a natural number.\<close>

fun toString :: "nat \<Rightarrow> string" where
  "toString n = (if n < 10 then [digitChar n] else toString (n div 10) @ [digitChar (n mod 10)])"

declare toString.simps [simp del]

text \<open>\<open>Object.values(data.salesByAddress).flatMap(g => g.orders)\<close>\<close>

definition allOrders :: "OdooData \<Rightarrow> order list" where
  "allOrders d = concat (map (\<lambda>kg. as_orders (snd kg)) (data_salesByAddress d))"

text \<open>\<open>os.reduce((sum, o) => sum + (o.amount || 0), 0)\<close>\<close>

definition sumAmounts :: "order list \<Rightarrow> rat" where
  "sumAmounts os = foldl (\<lambda>sum ord. plus64 sum (or0 (o_amount ord))) 0 os"


text \<open>
  \<open>grouped[k] += a\<close> on the object \<open>grouped\<close>: the value under a key that is there
  grows by \<open>a\<close>; a key that is not there is added with \<open>undefined + a\<close>, which is \<open>NaN\<close>.
\<close>

definition addTo :: "string \<Rightarrow> rat \<Rightarrow> (string \<times> jsnum) list \<Rightarrow> (string \<times> jsnum) list" where
  "addTo k a g =
     (if k \<in> set (map fst g)
      then map (\<lambda>(k', v). if k' = k then (k', js_add v (Num a)) else (k', v)) g
      else g @ [(k, NaN)])"

text \<open>An entry of the trend chart; the value \<open>None\<close> is \<open>undefined\<close>.\<close>

record chart_entry =
  entry_name :: string
  entry_value :: "jsnum option"

text \<open>
  \<open>aggregated[name] = v\<close> on the object literal \<open>aggregated\<close>: the key is added, or its
  value replaced; an assignment of a number to \<open>__proto__\<close> adds nothing.
\<close>

definition assign :: "string \<Rightarrow> 'a \<Rightarrow> (string \<times> 'a) list \<Rightarrow> (string \<times> 'a) list" where
  "assign k v g =
     (if k = ''__proto__'' then g
      else if k \<in> set (map fst g) then map (\<lambda>(k', v'). if k' = k then (k', v) else (k', v')) g
      else g @ [(k, v)])"

text \<open>\<open>s.replace(/^,\s*/, '')\<close>\<close>

definition stripComma :: "string \<Rightarrow> string" where
  "stripComma s =
     (case s of
        [] \<Rightarrow> []
      | c # cs \<Rightarrow> (if c = CHR '','' then dropWhile isWhiteSpace cs else s))"

definition trim :: "string \<Rightarrow> string" where
  "trim s = rev (dropWhile isWhiteSpace (rev (dropWhile isWhiteSpace s)))"

text \<open>
  The name of an address before the relabelling: the customer name at its start is
  taken off (\<open>replace\<close> removes the first occurrence, which is the one at the start),
  then a comma with the white space after it, and the rest is trimmed.
\<close>

definition cleanName :: "string \<Rightarrow> string \<Rightarrow> string" where
  "cleanName customerName name =
     (if customerName \<noteq> [] \<and> prefix customerName name
      then trim (stripComma (drop (length customerName) name))
      else name)"

definition transformAddressName :: "string \<Rightarrow> string" where
  "transformAddressName addr =
     (let firstPart = takeWhile (\<lambda>c. c \<noteq> CHR '','') addr
      in if length firstPart > 35 then take 33 firstPart @ ''...'' else firstPart)"

text \<open>The label of a bar: the clean name, relabelled when it is too short, then cut.\<close>

definition barName :: "string \<Rightarrow> string \<Rightarrow> string" where
  "barName customerName name =
     (let c = cleanName customerName name
      in transformAddressName (if length c < 2 then ''Main Office'' else c))"

section \<open>The view by calendar year\<close>

text \<open>The page whose year runs from January to December.\<close>

definition MONTHS_jan :: "string list" where
  "MONTHS_jan =
     [''January'', ''February'', ''March'', ''April'', ''May'', ''June'',
      ''July'', ''August'', ''September'', ''October'', ''November'', ''December'']"

text \<open>The test of the filters: is the order in the selected year and period?\<close>

definition inPeriod_jan :: "browser \<Rightarrow> int \<Rightarrow> viewBy \<Rightarrow> order \<Rightarrow> bool" where
  "inPeriod_jan b targetYear v ord =
     (case newDate b (o_date ord) of
        None \<Rightarrow> False
      | Some d \<Rightarrow>
          (if getFullYear d \<noteq> targetYear then False
           else case v of Year \<Rightarrow> True | Month m \<Rightarrow> getMonth d = m))"


text \<open>One round of the loop over the orders, in the view of one month.\<close>

definition addDay_jan :: "browser \<Rightarrow> int \<Rightarrow> nat \<Rightarrow> (string \<times> jsnum) list \<Rightarrow> order \<Rightarrow> (string \<times> jsnum) list" where
  "addDay_jan b targetYear m grouped ord =
     (case newDate b (o_date ord) of
        None \<Rightarrow> grouped
      | Some d \<Rightarrow>
          (if getFullYear d = targetYear \<and> getMonth d = m
           then addTo (toString (getDate d)) (or0 (o_amount ord)) grouped
           else grouped))"

text \<open>One round of the loop over the orders, in the view of the year.\<close>

definition addMonth_jan :: "browser \<Rightarrow> int \<Rightarrow> (string \<times> jsnum) list \<Rightarrow> order \<Rightarrow> (string \<times> jsnum) list" where
  "addMonth_jan b targetYear grouped ord =
     (case newDate b (o_date ord) of
        None \<Rightarrow> grouped
      | Some d \<Rightarrow>
          (if getFullYear d = targetYear
           then addTo (monthShort b (getMonth d)) (or0 (o_amount ord)) grouped
           else grouped))"

definition chartData_jan :: "browser \<Rightarrow> OdooData option \<Rightarrow> int \<Rightarrow> viewBy \<Rightarrow> chart_entry list" where
  "chartData_jan b data selectedYear v =
     (case data of
        None \<Rightarrow> []
      | Some d \<Rightarrow>
          (case v of
             Month m \<Rightarrow>
               (let grouped0 = map (\<lambda>i. (toString i, Num 0)) [1 ..< Suc (daysInMonth selectedYear m)];
                    grouped = foldl (addDay_jan b selectedYear m) grouped0 (allOrders d)
                in map (\<lambda>(k, x). \<lparr>entry_name = k, entry_value = Some x\<rparr>) grouped)
           | Year \<Rightarrow>
               (let grouped0 = map (\<lambda>m. (take 3 m, Num 0)) MONTHS_jan;
                    grouped = foldl (addMonth_jan b selectedYear) grouped0 (allOrders d);
                    shortMonths = map (take 3) MONTHS_jan
                in map (\<lambda>m. \<lparr>entry_name = m, entry_value = map_of grouped m\<rparr>) shortMonths)))"

record bar_jan =
  bar_name :: string
  bar_fullName :: string
  bar_value :: rat

text \<open>One round of the loop over the entries of \<open>salesByAddress\<close>.\<close>

definition aggregateAddress_jan ::
  "browser \<Rightarrow> int \<Rightarrow> viewBy \<Rightarrow> (string \<times> rat) list \<Rightarrow> string \<times> address_stats \<Rightarrow> (string \<times> rat) list" where
  "aggregateAddress_jan b targetYear v aggregated entry =
     (let validOrders = filter (inPeriod_jan b targetYear v) (as_orders (snd entry));
          total = sumAmounts validOrders
      in if total > 0 then assign (fst entry) total aggregated else aggregated)"

text \<open>
  The bars of the spend by address; \<open>sort((a, b) => b.value - a.value)\<close> is a stable
  sort by falling value.
\<close>

definition deliveryBarData_jan :: "browser \<Rightarrow> OdooData option \<Rightarrow> int \<Rightarrow> viewBy \<Rightarrow> bar_jan list" where
  "deliveryBarData_jan b data selectedYear v =
     (case data of
        None \<Rightarrow> []
      | Some d \<Rightarrow>
          (let customerName = data_customer d;
               aggregated = foldl (aggregateAddress_jan b selectedYear v) [] (data_salesByAddress d)
           in sort_key (\<lambda>e. - bar_value e)
                (map (\<lambda>(name, x). \<lparr>bar_name = barName customerName name,
                                   bar_fullName = name, bar_value = x\<rparr>) aggregated)))"

section \<open>The view by financial year\<close>

text \<open>The page whose year runs from April to March.\<close>

definition MONTHS_apr :: "string list" where
  "MONTHS_apr =
     [''April'', ''May'', ''June'', ''July'', ''August'', ''September'',
      ''October'', ''November'', ''December'', ''January'', ''February'', ''March'']"

definition financialYear :: "jsdate \<Rightarrow> int" where
  "financialYear d = (if getMonth d \<ge> 3 then getFullYear d else getFullYear d - 1)"

definition inPeriod_apr :: "browser \<Rightarrow> int \<Rightarrow> viewBy \<Rightarrow> order \<Rightarrow> bool" where
  "inPeriod_apr b targetYear v ord =
     (case newDate b (o_date ord) of
        None \<Rightarrow> False
      | Some d \<Rightarrow>
          (if financialYear d \<noteq> targetYear then False
           else case v of Year \<Rightarrow> True | Month m \<Rightarrow> (getMonth d + 9) mod 12 = m))"


definition addDay_apr :: "browser \<Rightarrow> int \<Rightarrow> nat \<Rightarrow> (string \<times> jsnum) list \<Rightarrow> order \<Rightarrow> (string \<times> jsnum) list" where
  "addDay_apr b actualYear actualMonth grouped ord =
     (case newDate b (o_date ord) of
        None \<Rightarrow> grouped
      | Some d \<Rightarrow>
          (if getFullYear d = actualYear \<and> getMonth d = actualMonth
           then addTo (toString (getDate d)) (or0 (o_amount ord)) grouped
           else grouped))"

definition addMonth_apr :: "browser \<Rightarrow> int \<Rightarrow> (string \<times> jsnum) list \<Rightarrow> order \<Rightarrow> (string \<times> jsnum) list" where
  "addMonth_apr b targetYear grouped ord =
     (case newDate b (o_date ord) of
        None \<Rightarrow> grouped
      | Some d \<Rightarrow>
          (if financialYear d = targetYear
           then addTo (monthShort b (getMonth d)) (or0 (o_amount ord)) grouped
           else grouped))"

definition chartData_apr :: "browser \<Rightarrow> OdooData option \<Rightarrow> int \<Rightarrow> viewBy \<Rightarrow> chart_entry list" where
  "chartData_apr b data selectedYear v =
     (case data of
        None \<Rightarrow> []
      | Some d \<Rightarrow>
          (case v of
             Month m \<Rightarrow>
               (let actualMonth = (m + 3) mod 12;
                    actualYear = (if m \<ge> 9 then selectedYear + 1 else selectedYear);
                    grouped0 = map (\<lambda>i. (toString i, Num 0)) [1 ..< Suc (daysInMonth actualYear actualMonth)];
                    grouped = foldl (addDay_apr b actualYear actualMonth) grouped0 (allOrders d)
                in map (\<lambda>(k, x). \<lparr>entry_name = k, entry_value = Some x\<rparr>) grouped)
           | Year \<Rightarrow>
               (let shortMonths = map (take 3) MONTHS_apr;
                    grouped0 = map (\<lambda>m. (m, Num 0)) shortMonths;
                    grouped = foldl (addMonth_apr b selectedYear) grouped0 (allOrders d)
                in map (\<lambda>m. \<lparr>entry_name = m, entry_value = map_of grouped m\<rparr>) shortMonths)))"

record bar_apr =
  bar_jan +
  bar_orders :: "order list"

definition aggregateAddress_apr ::
  "browser \<Rightarrow> int \<Rightarrow> viewBy \<Rightarrow> (string \<times> rat \<times> order list) list \<Rightarrow> string \<times> address_stats
     \<Rightarrow> (string \<times> rat \<times> order list) list" where
  "aggregateAddress_apr b targetYear v aggregated entry =
     (let validOrders = filter (inPeriod_apr b targetYear v) (as_orders (snd entry));
          total = sumAmounts validOrders
      in if total > 0 then assign (fst entry) (total, validOrders) aggregated else aggregated)"

definition deliveryBarData_apr :: "browser \<Rightarrow> OdooData option \<Rightarrow> int \<Rightarrow> viewBy \<Rightarrow> bar_apr list" where
  "deliveryBarData_apr b data selectedYear v =
     (case data of
        None \<Rightarrow> []
      | Some d \<Rightarrow>
          (let customerName = data_customer d;
               aggregated = foldl (aggregateAddress_apr b selectedYear v) [] (data_salesByAddress d)
           in sort_key (\<lambda>e. - bar_value e)
                (map (\<lambda>(name, x, os). \<lparr>bar_name = barName customerName name,
                                       bar_fullName = name, bar_value = x, bar_orders = os\<rparr>)
                   aggregated)))"

section \<open>Invariants and sample inputs\<close>

definition bucketCounts :: "sales \<Rightarrow> nat" where
  "bucketCounts s = sum_list (map (\<lambda>kb. bucket_count (snd kb)) s)"

definition bucketOk :: "bucket \<Rightarrow> bool" where
  "bucketOk b = (bucket_count b = length (bucket_orders b) \<and>
                 bucket_total b = sum64 (map amount (bucket_orders b)))"

definition salesInv :: "rat \<times> sales \<Rightarrow> nat \<Rightarrow> bool" where
  "salesInv acc n =
     (distinct (map fst (snd acc)) \<and> list_all (\<lambda>kb. bucketOk (snd kb)) (snd acc) \<and>
      bucketCounts (snd acc) = n)"

definition kpi_of :: "response \<Rightarrow> kpi option" where
  "kpi_of resp = (case body resp of StatsBody s \<Rightarrow> Some (stats_kpi s) | _ \<Rightarrow> None)"

definition acme_env :: env where
  "acme_env =
     \<lparr>ODOO_URL = Some ''https://erp.example.com'', ODOO_DB = Some ''erp'',
      ODOO_USERNAME = Some ''dashboard'', ODOO_PASSWORD = Some ''key'',
      ODOO_CUSTOMER_REF = Some ''ACME-01''\<rparr>"

definition acme_partner :: partner where
  "acme_partner = \<lparr>partner_id = 42, partner_name = ''ACME'', child_ids = []\<rparr>"

definition document :: "int \<Rightarrow> string \<Rightarrow> string \<Rightarrow> rat \<Rightarrow> string \<Rightarrow> invoice" where
  "document i t day a place =
     \<lparr>inv_id = i, inv_name = ''DOC'', invoice_date = day, amount_total = Some a,
      amount_untaxed = None, amount_tax = None,
      partner_shipping_id = Some (i, place), move_type = t, state = ''posted''\<rparr>"

definition acme_documents :: "invoice list" where
  "acme_documents =
     [document 1 ''out_invoice'' ''2026-04-10'' 100 ''ACME, Leith'',
      document 2 ''out_invoice'' ''2026-05-02'' 50 ''ACME, Perth'',
      document 3 ''out_refund'' ''2026-05-20'' (- 30) ''ACME, Leith'']"

definition erp :: "string \<Rightarrow> partner \<Rightarrow> invoice list \<Rightarrow> remote" where
  "erp ref p docs =
     \<lparr>authenticate = Inr (Some 2),
      read_partners = (\<lambda>c. Inr (Some (if c = ref then [p] else []))),
      read_invoices = (\<lambda>i. Inr (Some (if i = partner_id p then docs else []))),
      read_move = (\<lambda>i. Inr (Some [])),
      read_lines_by_id = (\<lambda>ids. Inr (Some [])),
      read_lines_filtered = (\<lambda>i. Inr (Some [])),
      read_lines_raw = (\<lambda>i. Inr (Some []))\<rparr>"

definition orderOf :: "invoice \<Rightarrow> order_summary" where
  "orderOf iv =
     \<lparr>order_id = inv_id iv, order_name = inv_name iv, order_date = invoice_date iv,
      amount = amountTotal iv\<rparr>"

definition ordersAt :: "sales \<Rightarrow> string \<Rightarrow> order_summary list" where
  "ordersAt s k = (case map_of s k of None \<Rightarrow> [] | Some b \<Rightarrow> bucket_orders b)"

definition acme_erp :: remote where
  "acme_erp = erp ''ACME-01'' acme_partner acme_documents"

definition acme_stats :: stats where
  "acme_stats =
     \<lparr>customer = ''ACME'',
      stats_kpi = \<lparr>revenue = 120, orders = 3, items = 0, avgOrderValue = Num 40\<rparr>,
      salesByAddress =
        [(''ACME, Leith'',
          \<lparr>bucket_count = 2, bucket_total = 70,
           bucket_orders =
             [\<lparr>order_id = 1, order_name = ''DOC'', order_date = ''2026-04-10'', amount = 100\<rparr>,
              \<lparr>order_id = 3, order_name = ''DOC'', order_date = ''2026-05-20'', amount = - 30\<rparr>]\<rparr>),
         (''ACME, Perth'',
          \<lparr>bucket_count = 1, bucket_total = 50,
           bucket_orders =
             [\<lparr>order_id = 2, order_name = ''DOC'', order_date = ''2026-05-02'', amount = 50\<rparr>]\<rparr>)],
      recentInvoices = acme_documents\<rparr>"

definition refund_erp :: remote where
  "refund_erp =
     erp ''ACME-01'' acme_partner [document 7 ''out_refund'' ''2026-06-01'' 30 ''ACME, Leith'']"

definition no_ref_env :: env where
  "no_ref_env = acme_env\<lparr>ODOO_CUSTOMER_REF := None\<rparr>"

definition no_url_env :: env where
  "no_url_env = acme_env\<lparr>ODOO_URL := None\<rparr>"

text \<open>The revenue of the KPI object that the aggregation of some documents gives.\<close>

definition revenueOf :: "partner \<Rightarrow> invoice list \<Rightarrow> rat option" where
  "revenueOf p invs =
     (case aggregate p invs of Inl x \<Rightarrow> None | Inr s \<Rightarrow> Some (revenue (stats_kpi s)))"

text \<open>
  The amount of an entry of \<open>recentInvoices\<close>: the handler has set its \<open>amount_total\<close> to
  a number.
\<close>

definition listedAmount :: "invoice \<Rightarrow> rat" where
  "listedAmount iv = (case amount_total iv of None \<Rightarrow> 0 | Some a \<Rightarrow> a)"

definition sales_of :: "response \<Rightarrow> sales" where
  "sales_of resp = (case body resp of StatsBody s \<Rightarrow> salesByAddress s | _ \<Rightarrow> [])"

text \<open>Three invoices of 0.10, 0.20 and 0.30, the first for one address, the others for another.\<close>

definition cents_erp :: remote where
  "cents_erp =
     erp ''ACME-01'' acme_partner
       [document 1 ''out_invoice'' ''2026-04-10'' (1 / 10) ''ACME, Leith'',
        document 2 ''out_invoice'' ''2026-05-02'' (2 / 10) ''ACME, Perth'',
        document 3 ''out_invoice'' ''2026-05-20'' (3 / 10) ''ACME, Perth'']"

text \<open>The exact sum of the amounts of all orders of all buckets.\<close>

definition bucketAmounts :: "sales \<Rightarrow> rat" where
  "bucketAmounts s = sum_list (map (\<lambda>kb. sum_list (map amount (bucket_orders (snd kb)))) s)"

text \<open>
  A sample browser: one in the time zone UTC, where a date string \<open>YYYY-MM-DD\<close> of the
  calendar is read as that day, with English month names.
\<close>

definition isoDate :: "string \<Rightarrow> jsdate option" where
  "isoDate s =
     (if length s = 10 \<and> take 1 (drop 4 s) = ''-'' \<and> take 1 (drop 7 s) = ''-'' \<and>
         list_all (isDigit 10) (take 4 s @ take 2 (drop 5 s) @ drop 8 s)
      then (let y = int (digitsValue 10 (take 4 s));
                m = digitsValue 10 (take 2 (drop 5 s));
                d = digitsValue 10 (drop 8 s)
            in if 1 \<le> m \<and> m \<le> 12 \<and> 1 \<le> d \<and> d \<le> monthLength y (m - 1)
               then Some \<lparr>getFullYear = y, getMonth = m - 1, getDate = d\<rparr>
               else None)
      else None)"

definition utc_browser :: browser where
  "utc_browser =
     \<lparr>newDate = isoDate,
      monthShort = (\<lambda>m. if m < 12 then take 3 (MONTHS_jan ! m) else [])\<rparr>"

definition purchase :: "int \<Rightarrow> string \<Rightarrow> rat \<Rightarrow> order" where
  "purchase i day a = \<lparr>o_id = i, o_name = ''DOC'', o_date = day, o_amount = Some a\<rparr>"

definition address :: "order list \<Rightarrow> address_stats" where
  "address os = \<lparr>as_count = length os, as_total = sumAmounts os, as_orders = os\<rparr>"

definition acme_data :: OdooData where
  "acme_data =
     \<lparr>data_customer = ''ACME'',
      data_salesByAddress =
        [(''ACME, Leith'', address [purchase 1 ''2026-04-10'' 100, purchase 3 ''2026-05-20'' (- 30)]),
         (''ACME, Perth'', address [purchase 2 ''2026-05-02'' 50]),
         (''ACME, Fife'', address [purchase 4 ''2026-05-03'' 20, purchase 5 ''2026-05-09'' (- 20)]),
         (''ACME'', address [purchase 6 ''2026-02-11'' 10])]\<rparr>"

text \<open>
  A response with one address whose amounts, 0.95, 2.08, 0.49 and a credit note of 3.52,
  sum to zero.
\<close>

definition oban_orders :: "order list" where
  "oban_orders =
     [purchase 1 ''2026-04-10'' (95 / 100), purchase 2 ''2026-05-02'' (208 / 100),
      purchase 3 ''2026-05-20'' (49 / 100), purchase 4 ''2026-06-01'' (- (352 / 100))]"

definition oban_data :: OdooData where
  "oban_data =
     \<lparr>data_customer = ''ACME'',
      data_salesByAddress = [(''ACME, Oban'', address oban_orders)]\<rparr>"

text \<open>Sample answers of the ERP to the invoice operation.\<close>

definition fault :: exn where
  "fault = JsError ''Invalid field on model account.move.line''"

definition product_line :: move_line where
  "product_line =
     \<lparr>line_id = 11, line_name = Some ''Widget, blue'', product_id = Some (5, ''Widget''),
      quantity = Some 2, price_unit = Some (25 / 2), price_subtotal = Some 25,
      discount = None, display_type = None, account_id = Some (400, ''Sales'')\<rparr>"

definition invoice_erp ::
  "(exn + move_row list option) \<Rightarrow> (exn + move_line list option) \<Rightarrow>
   (exn + move_line list option) \<Rightarrow> (exn + move_line list option) \<Rightarrow> remote" where
  "invoice_erp move by_id filtered raw =
     \<lparr>authenticate = Inr (Some 2),
      read_partners = (\<lambda>c. Inr (Some [])),
      read_invoices = (\<lambda>i. Inr (Some [])),
      read_move = (\<lambda>i. move),
      read_lines_by_id = (\<lambda>ids. by_id),
      read_lines_filtered = (\<lambda>i. filtered),
      read_lines_raw = (\<lambda>i. raw)\<rparr>"

definition move_with_lines :: "exn + move_row list option" where
  "move_with_lines = Inr (Some [\<lparr>invoice_line_ids = Some [11]\<rparr>])"

definition move_without_lines :: "exn + move_row list option" where
  "move_without_lines = Inr (Some [\<lparr>invoice_line_ids = Some []\<rparr>])"

text \<open>
  The loops that fill \<open>grouped\<close> have one shape: an order either is passed over or adds
  its amount under a key.
\<close>

definition groupStep ::
  "(order \<Rightarrow> string option) \<Rightarrow> (string \<times> jsnum) list \<Rightarrow> order \<Rightarrow> (string \<times> jsnum) list" where
  "groupStep key g ord =
     (case key ord of None \<Rightarrow> g | Some k \<Rightarrow> addTo k (or0 (o_amount ord)) g)"

definition dayKey :: "browser \<Rightarrow> int \<Rightarrow> nat \<Rightarrow> order \<Rightarrow> string option" where
  "dayKey b y m ord =
     (case newDate b (o_date ord) of
        None \<Rightarrow> None
      | Some d \<Rightarrow>
          (if getFullYear d = y \<and> getMonth d = m then Some (toString (getDate d)) else None))"

definition monthKey_jan :: "browser \<Rightarrow> int \<Rightarrow> order \<Rightarrow> string option" where
  "monthKey_jan b y ord =
     (case newDate b (o_date ord) of
        None \<Rightarrow> None
      | Some d \<Rightarrow> (if getFullYear d = y then Some (monthShort b (getMonth d)) else None))"

definition monthKey_apr :: "browser \<Rightarrow> int \<Rightarrow> order \<Rightarrow> string option" where
  "monthKey_apr b y ord =
     (case newDate b (o_date ord) of
        None \<Rightarrow> None
      | Some d \<Rightarrow> (if financialYear d = y then Some (monthShort b (getMonth d)) else None))"

text \<open>The orders that belong to one bucket of a chart.\<close>

definition onDay :: "browser \<Rightarrow> int \<Rightarrow> nat \<Rightarrow> nat \<Rightarrow> order \<Rightarrow> bool" where
  "onDay b y m i ord =
     (case newDate b (o_date ord) of
        None \<Rightarrow> False
      | Some d \<Rightarrow> getFullYear d = y \<and> getMonth d = m \<and> getDate d = i)"

definition inMonth_jan :: "browser \<Rightarrow> int \<Rightarrow> string \<Rightarrow> order \<Rightarrow> bool" where
  "inMonth_jan b y n ord =
     (case newDate b (o_date ord) of
        None \<Rightarrow> False
      | Some d \<Rightarrow> getFullYear d = y \<and> monthShort b (getMonth d) = n)"

definition inMonth_apr :: "browser \<Rightarrow> int \<Rightarrow> string \<Rightarrow> order \<Rightarrow> bool" where
  "inMonth_apr b y n ord =
     (case newDate b (o_date ord) of
        None \<Rightarrow> False
      | Some d \<Rightarrow> financialYear d = y \<and> monthShort b (getMonth d) = n)"

text \<open>Every order of the data has a date of the calendar, or an invalid date.\<close>

definition validDates :: "browser \<Rightarrow> OdooData \<Rightarrow> bool" where
  "validDates b d =
     list_all (\<lambda>ord. case newDate b (o_date ord) of None \<Rightarrow> True | Some dt \<Rightarrow> validDate dt)
       (allOrders d)"

section \<open>Double precision on whole numbers\<close>


lemma bitLength_bounds:
  "0 < n \<Longrightarrow> 2 ^ (bitLength n - 1) \<le> n \<and> n < 2 ^ bitLength n"
proof (induction n rule: bitLength.induct)
  case (1 n)
  show ?case
  proof (cases "n = 1")
    case True
    then show ?thesis by (simp add: bitLength.simps)
  next
    case False
    with "1.prems" have h: "0 < n div 2" by simp
    from "1.prems" have "\<not> n \<le> 0" by simp
    from "1.IH"[OF this h] have ih: "2 ^ (bitLength (n div 2) - 1) \<le> n div 2"
      "n div 2 < 2 ^ bitLength (n div 2)" by simp_all
    from h have p: "0 < bitLength (n div 2)" by (subst bitLength.simps) simp
    have b: "bitLength n = Suc (bitLength (n div 2))"
      using "1.prems" by (subst bitLength.simps) simp
    from ih(1) have "2 * 2 ^ (bitLength (n div 2) - 1) \<le> n" by linarith
    moreover from p have "(2::int) * 2 ^ (bitLength (n div 2) - 1) = 2 ^ bitLength (n div 2)"
      by (cases "bitLength (n div 2)") simp_all
    moreover from ih(2) have "n < 2 * 2 ^ bitLength (n div 2)" by linarith
    ultimately show ?thesis by (simp add: b)
  qed
qed

lemma roundEven_int: "roundEven (of_int k) = k"
  by (simp add: roundEven_def Let_def)

lemma toDouble_of_int:
  assumes "\<bar>n\<bar> < 2 ^ 53"
  shows "toDouble (of_int n) = of_int n"
proof (cases "n = 0")
  case True
  then show ?thesis by (simp add: toDouble_def)
next
  case False
  let ?m = "\<bar>n\<bar>"
  let ?b = "bitLength ?m"
  from False have m: "0 < ?m" by simp
  from bitLength_bounds[OF m] have lo: "2 ^ (?b - 1) \<le> ?m" and hi: "?m < 2 ^ ?b" by simp_all
  from m have bpos: "0 < ?b" by (subst bitLength.simps) simp
  have b53: "?b \<le> 53"
  proof (rule ccontr)
    assume "\<not> ?b \<le> 53"
    then have "53 \<le> ?b - 1" by simp
    then have "(2::int) ^ 53 \<le> 2 ^ (?b - 1)" by (intro power_increasing) simp_all
    with lo assms show False by linarith
  qed
  have q: "quotient_of (of_int ?m) = (?m, 1)"
    using quotient_of_int[of ?m] by (simp only: Rat.of_int_def)
  have b1: "bitLength 1 = 1"
    by (subst bitLength.simps) (simp add: bitLength.simps)
  have "pow2 (int ?b - 1) = of_int (2 ^ (?b - 1))"
    using bpos by (simp add: pow2_def nat_diff_distrib of_nat_diff)
  also have "\<dots> \<le> of_int ?m" using lo by (simp only: of_int_le_iff)
  finally have le: "pow2 (int ?b - 1) \<le> of_int ?m" .
  have il: "ilog2 \<bar>of_int n :: rat\<bar> = int ?b - 1"
    using le by (simp add: ilog2_def q b1 Let_def flip: of_int_abs)
  let ?k = "53 - ?b"
  have e: "max (int ?b - 1) (- 1022) - 52 = - int ?k" using b53 bpos by simp
  have u: "pow2 (- int j) = 1 / 2 ^ j" for j
    by (cases "j = 0") (simp_all add: pow2_def)
  have "of_int n / (1 / 2 ^ ?k) = (of_int (n * 2 ^ ?k) :: rat)" by simp
  then have r: "roundEven (of_int n / (1 / 2 ^ ?k)) = n * 2 ^ ?k"
    by (simp only: roundEven_int)
  have ex: "max (ilog2 \<bar>of_int n :: rat\<bar>) (- 1022) - 52 = - int ?k"
    unfolding il by (rule e)
  show ?thesis
    unfolding toDouble_def Let_def ex u r using False by simp
qed

lemma toDouble_numeral:
  "(numeral k :: int) < 9007199254740992 \<Longrightarrow> toDouble (numeral k) = numeral k"
  "(numeral k :: int) < 9007199254740992 \<Longrightarrow> toDouble (- numeral k) = - numeral k"
  "toDouble 0 = 0" "toDouble 1 = 1"
  using toDouble_of_int[of "numeral k"] toDouble_of_int[of "- numeral k"] toDouble_of_int[of 1]
  by (simp_all add: toDouble_def)


lemma sum64_snoc: "sum64 (xs @ [a]) = plus64 (sum64 xs) a"
  by (simp add: sum64_def)

lemma double_samples:
  "toDouble (1 / 10) = 3602879701896397 / 36028797018963968"
  "toDouble (2 / 10) = 3602879701896397 / 18014398509481984"
  "toDouble (3 / 10) = 5404319552844595 / 18014398509481984"
  "toDouble (25 / 2) = 25 / 2"
  by code_simp+

section \<open>Properties of the stats operation\<close>

lemma keys_ensureBucket:
  "map fst (ensureBucket k s) = (if k \<in> set (map fst s) then map fst s else map fst s @ [k])"
  by (auto simp: ensureBucket_def map_of_eq_None_iff)

lemma distinct_ensureBucket:
  "distinct (map fst s) \<Longrightarrow> distinct (map fst (ensureBucket k s))"
  by (simp add: keys_ensureBucket)

lemma key_in_ensureBucket: "k \<in> set (map fst (ensureBucket k s))"
  by (simp add: keys_ensureBucket)

lemma counts_ensureBucket: "bucketCounts (ensureBucket k s) = bucketCounts s"
  by (simp add: ensureBucket_def bucketCounts_def emptyBucket_def)

lemma ok_ensureBucket:
  "list_all (\<lambda>kb. bucketOk (snd kb)) s \<Longrightarrow> list_all (\<lambda>kb. bucketOk (snd kb)) (ensureBucket k s)"
  by (simp add: ensureBucket_def bucketOk_def emptyBucket_def sum64_def)

lemma keys_updateBucket: "map fst (updateBucket k ord s) = map fst s"
  by (induction s) (auto simp: updateBucket_def)

lemma updateBucket_absent:
  "k \<notin> set (map fst s) \<Longrightarrow> updateBucket k ord s = s"
  by (induction s) (auto simp: updateBucket_def)

lemma counts_updateBucket:
  "distinct (map fst s) \<Longrightarrow> k \<in> set (map fst s) \<Longrightarrow>
   bucketCounts (updateBucket k ord s) = bucketCounts s + 1"
proof (induction s)
  case Nil
  then show ?case by simp
next
  case (Cons kb s)
  obtain k' b where kb: "kb = (k', b)" by (cases kb)
  show ?case
  proof (cases "k' = k")
    case True
    with Cons.prems kb have "k \<notin> set (map fst s)" by auto
    then have "updateBucket k ord s = s" by (rule updateBucket_absent)
    then have "map (\<lambda>(k', b). if k' = k then (k', addOrder ord b) else (k', b)) s = s"
      by (simp add: updateBucket_def)
    with True kb show ?thesis
      by (simp add: updateBucket_def bucketCounts_def addOrder_def)
  next
    case False
    with Cons kb show ?thesis
      by (simp add: updateBucket_def bucketCounts_def)
  qed
qed

lemma ok_addOrder: "bucketOk b \<Longrightarrow> bucketOk (addOrder ord b)"
  by (simp add: bucketOk_def addOrder_def sum64_snoc)

lemma ok_updateBucket:
  "list_all (\<lambda>kb. bucketOk (snd kb)) s \<Longrightarrow> list_all (\<lambda>kb. bucketOk (snd kb)) (updateBucket k ord s)"
  by (induction s) (auto simp: updateBucket_def ok_addOrder)

lemma processInvoice_inv:
  assumes "processInvoice acc iv = Inr acc'" and "salesInv acc n"
  shows "salesInv acc' (Suc n)"
proof -
  let ?k = "addressName iv"
  let ?o = "\<lparr>order_id = inv_id iv, order_name = inv_name iv,
              order_date = invoice_date iv, amount = amountTotal iv\<rparr>"
  let ?s = "ensureBucket ?k (snd acc)"
  from assms(1) have acc': "acc' = (plus64 (fst acc) (amountTotal iv), updateBucket ?k ?o ?s)"
    by (auto simp: processInvoice_def Let_def split: if_splits)
  from assms(2) have d: "distinct (map fst ?s)"
    by (simp add: salesInv_def distinct_ensureBucket)
  have m: "?k \<in> set (map fst ?s)" by (rule key_in_ensureBucket)
  have "bucketCounts (updateBucket ?k ?o ?s) = bucketCounts ?s + 1"
    using d m by (rule counts_updateBucket)
  moreover have "list_all (\<lambda>kb. bucketOk (snd kb)) (updateBucket ?k ?o ?s)"
    using assms(2) by (simp add: salesInv_def ok_ensureBucket ok_updateBucket)
  moreover have "distinct (map fst (updateBucket ?k ?o ?s))"
    using d by (simp add: keys_updateBucket)
  ultimately show ?thesis
    using assms(2) by (simp add: acc' salesInv_def counts_ensureBucket)
qed

lemma forEachInvoice_inv:
  "forEachInvoice invs acc = Inr acc' \<Longrightarrow> salesInv acc n \<Longrightarrow> salesInv acc' (n + length invs)"
proof (induction invs arbitrary: acc n)
  case Nil
  then show ?case by simp
next
  case (Cons iv invs)
  from Cons.prems(1) obtain acc1 where
    s1: "processInvoice acc iv = Inr acc1" and s2: "forEachInvoice invs acc1 = Inr acc'"
    by (auto split: sum.splits)
  from s1 Cons.prems(2) have "salesInv acc1 (Suc n)" by (rule processInvoice_inv)
  with s2 have "salesInv acc' (Suc n + length invs)" by (rule Cons.IH)
  then show ?case by simp
qed

lemma forEachInvoice_revenue:
  "forEachInvoice invs acc = Inr acc' \<Longrightarrow> fst acc' = foldl plus64 (fst acc) (map amountTotal invs)"
proof (induction invs arbitrary: acc)
  case Nil
  then show ?case by simp
next
  case (Cons iv invs)
  from Cons.prems obtain acc1 where
    s1: "processInvoice acc iv = Inr acc1" and s2: "forEachInvoice invs acc1 = Inr acc'"
    by (auto split: sum.splits)
  from s1 have "fst acc1 = plus64 (fst acc) (amountTotal iv)"
    by (auto simp: processInvoice_def Let_def split: if_splits)
  with Cons.IH[OF s2] show ?case by simp
qed

lemma forEachInvoice_ok:
  "(\<exists>acc'. forEachInvoice invs acc = Inr acc') =
   list_all (\<lambda>iv. addressName iv \<notin> set objectPrototypeKeys) invs"
proof (induction invs arbitrary: acc)
  case Nil
  then show ?case by simp
next
  case (Cons iv invs)
  show ?case
  proof (cases "addressName iv \<in> set objectPrototypeKeys")
    case True
    then show ?thesis by (simp add: processInvoice_def Let_def)
  next
    case False
    then obtain acc1 where "processInvoice acc iv = Inr acc1"
      by (simp add: processInvoice_def Let_def)
    with False Cons.IH[of acc1] show ?thesis by simp
  qed
qed

lemma aggregate_forEach:
  assumes "aggregate p invs = Inr s"
  shows "forEachInvoice invs (0, []) = Inr (revenue (stats_kpi s), salesByAddress s)"
  using assms by (auto simp: aggregate_def Let_def split: sum.splits)

lemma aggregate_kpi:
  assumes "aggregate p invs = Inr s"
  shows "stats_kpi s =
           \<lparr>revenue = sum64 (map amountTotal invs), orders = length invs, items = 0,
            avgOrderValue =
              (if length invs > 0 then js_div (sum64 (map amountTotal invs)) (of_nat (length invs))
               else Num 0)\<rparr>"
proof -
  from forEachInvoice_revenue[OF aggregate_forEach[OF assms]]
  have "revenue (stats_kpi s) = sum64 (map amountTotal invs)" by (simp add: sum64_def)
  with assms show ?thesis
    by (auto simp: aggregate_def Let_def split: sum.splits)
qed

lemma aggregate_recentInvoices:
  assumes "aggregate p invs = Inr s"
  shows "recentInvoices s = map (\<lambda>iv. iv\<lparr>amount_total := Some (amountTotal iv)\<rparr>) invs"
  using assms by (auto simp: aggregate_def Let_def split: sum.splits)

lemma GET_stats_StatsBody:
  assumes "body (GET_stats e r) = StatsBody s"
  obtains p invs where "aggregate p invs = Inr s" and "status (GET_stats e r) = 200"
  using assms
  by (auto simp: GET_stats_def statsTry_def json_status_def json_def
           split: if_splits sum.splits option.splits list.splits)

lemma odooSearchRead_ok:
  "getOdooConfig e = Inr cfg \<Longrightarrow> authenticate r = Inr (Some uid) \<Longrightarrow> uid \<noteq> 0 \<Longrightarrow>
   odooSearchRead e r answer = answer"
  by (simp add: odooSearchRead_def odooLogin_def)

lemma GET_stats_fetched:
  assumes "getOdooConfig e = Inr cfg" and "authenticate r = Inr (Some uid)" and "uid \<noteq> 0"
    and "ODOO_CUSTOMER_REF e = Some c" and "c \<noteq> []"
    and "read_partners r c = Inr (Some (p # ps))"
    and "read_invoices r (partner_id p) = Inr (Some invs)"
  shows "GET_stats e r =
           (case aggregate p invs of
              Inl x \<Rightarrow> json_status (ErrorBody (''Failed to fetch Odoo data: '' @ message x)) 500
            | Inr s \<Rightarrow> json (StatsBody s))"
  using assms
  by (simp add: GET_stats_def unset_def statsTry_def odooSearchRead_ok[OF assms(1,2,3)]
           split: sum.splits)

lemma aggregate_succeeds:
  "list_all (\<lambda>iv. addressName iv \<notin> set objectPrototypeKeys) invs \<Longrightarrow> \<exists>s. aggregate p invs = Inr s"
proof -
  assume "list_all (\<lambda>iv. addressName iv \<notin> set objectPrototypeKeys) invs"
  then obtain acc where "forEachInvoice invs (0, []) = Inr acc"
    using forEachInvoice_ok[of invs "(0, [])"] by auto
  then show ?thesis by (cases acc) (simp add: aggregate_def Let_def)
qed

lemma acme_config: "getOdooConfig acme_env = Inr \<lparr>url = ''https://erp.example.com'', db = ''erp'', username = ''dashboard'', password = ''key''\<rparr>"
  by (simp add: getOdooConfig_def acme_env_def)

text \<open>
  Claim C1, as the code has it. When the configuration is complete, the customer
  reference resolves to a partner and the ERP returns three documents for it, two
  invoices of 100.00 and 50.00 and a credit note of -30.00, the response has status 200
  and its KPI object has revenue 120.00, invoice count 3 and average invoice value 40.00:
  the credit note counts as -30.00.
\<close>

theorem stats_three_documents:
  assumes "getOdooConfig e = Inr cfg" and "authenticate r = Inr (Some uid)" and "uid \<noteq> 0"
    and "ODOO_CUSTOMER_REF e = Some c" and "c \<noteq> []"
    and "read_partners r c = Inr (Some (p # ps))"
    and "read_invoices r (partner_id p) = Inr (Some [d1, d2, d3])"
    and "amount_total d1 = Some 100" and "move_type d1 \<noteq> ''out_refund''"
    and "amount_total d2 = Some 50" and "move_type d2 \<noteq> ''out_refund''"
    and "amount_total d3 = Some (- 30)" and "move_type d3 = ''out_refund''"
    and "addressName d1 \<notin> set objectPrototypeKeys"
    and "addressName d2 \<notin> set objectPrototypeKeys"
    and "addressName d3 \<notin> set objectPrototypeKeys"
  shows "status (GET_stats e r) = 200 \<and>
         kpi_of (GET_stats e r) =
           Some \<lparr>revenue = 120, orders = 3, items = 0, avgOrderValue = Num 40\<rparr>"
proof -
  have "list_all (\<lambda>iv. addressName iv \<notin> set objectPrototypeKeys) [d1, d2, d3]"
    using assms(14-16) by simp
  then obtain s where s: "aggregate p [d1, d2, d3] = Inr s"
    using aggregate_succeeds by blast
  have rev: "sum64 (map amountTotal [d1, d2, d3]) = 120"
    using assms(8-13) by (simp add: amountTotal_def or0_def sum64_def plus64_def toDouble_numeral)
  have k: "stats_kpi s = \<lparr>revenue = 120, orders = 3, items = 0, avgOrderValue = Num 40\<rparr>"
    using rev aggregate_kpi[OF s] by (simp add: js_div_def)
  have "GET_stats e r = json (StatsBody s)"
    using GET_stats_fetched[OF assms(1-7)] s by simp
  with k show ?thesis by (simp add: json_def kpi_of_def)
qed

text \<open>
  Witness for C1: the reference ACME-01 resolves to partner 42, whose three documents
  are the ones of the claim.
\<close>

theorem stats_three_documents_witness:
  "read_partners (erp ''ACME-01'' acme_partner acme_documents) ''ACME-01'' = Inr (Some [acme_partner]) \<and>
   partner_id acme_partner = 42 \<and>
   read_invoices (erp ''ACME-01'' acme_partner acme_documents) 42 = Inr (Some acme_documents) \<and>
   map amount_total acme_documents = [Some 100, Some 50, Some (- 30)] \<and>
   map move_type acme_documents = [''out_invoice'', ''out_invoice'', ''out_refund''] \<and>
   status (GET_stats acme_env (erp ''ACME-01'' acme_partner acme_documents)) = 200 \<and>
   kpi_of (GET_stats acme_env (erp ''ACME-01'' acme_partner acme_documents)) =
     Some \<lparr>revenue = 120, orders = 3, items = 0, avgOrderValue = Num 40\<rparr>"
proof -
  let ?r = "erp ''ACME-01'' acme_partner acme_documents"
  let ?d1 = "document 1 ''out_invoice'' ''2026-04-10'' 100 ''ACME, Leith''"
  let ?d2 = "document 2 ''out_invoice'' ''2026-05-02'' 50 ''ACME, Perth''"
  let ?d3 = "document 3 ''out_refund'' ''2026-05-20'' (- 30) ''ACME, Leith''"
  have a: "authenticate ?r = Inr (Some 2)" "(2::int) \<noteq> 0" by (simp_all add: erp_def)
  have c: "ODOO_CUSTOMER_REF acme_env = Some ''ACME-01''" "''ACME-01'' \<noteq> []"
    by (simp_all add: acme_env_def)
  have p: "read_partners ?r ''ACME-01'' = Inr (Some [acme_partner])" by (simp add: erp_def)
  have i: "read_invoices ?r (partner_id acme_partner) = Inr (Some [?d1, ?d2, ?d3])"
    by (simp add: erp_def acme_documents_def)
  have "status (GET_stats acme_env ?r) = 200 \<and>
        kpi_of (GET_stats acme_env ?r) =
          Some \<lparr>revenue = 120, orders = 3, items = 0, avgOrderValue = Num 40\<rparr>"
    by (rule stats_three_documents[OF acme_config a c p i])
       (simp_all add: document_def addressName_def objectPrototypeKeys_def)
  then show ?thesis
    by (simp add: erp_def acme_partner_def acme_documents_def document_def)
qed

text \<open>
  Counterexample to C1 as stated: on that input the revenue is 120.00 and not 180.00,
  and the average is not 60.00.
\<close>

theorem stats_three_documents_not_180:
  "map_option revenue (kpi_of (GET_stats acme_env (erp ''ACME-01'' acme_partner acme_documents))) = Some 120 \<and>
   map_option revenue (kpi_of (GET_stats acme_env (erp ''ACME-01'' acme_partner acme_documents))) \<noteq> Some 180 \<and>
   map_option avgOrderValue (kpi_of (GET_stats acme_env (erp ''ACME-01'' acme_partner acme_documents))) \<noteq> Some (Num 60)"
  by (simp add: GET_stats_def acme_env_def erp_def acme_partner_def acme_documents_def document_def
        unset_def statsTry_def odooSearchRead_def getOdooConfig_def odooLogin_def aggregate_def
        processInvoice_def Let_def amountTotal_def or0_def addressName_def objectPrototypeKeys_def
        ensureBucket_def updateBucket_def emptyBucket_def addOrder_def json_def js_div_def kpi_of_def
        plus64_def toDouble_numeral)


lemmas eval_stats =
  GET_stats_def unset_def statsTry_def odooSearchRead_def getOdooConfig_def odooLogin_def
  aggregate_def processInvoice_def Let_def amountTotal_def or0_def addressName_def
  objectPrototypeKeys_def ensureBucket_def updateBucket_def emptyBucket_def addOrder_def
  json_def json_status_def js_div_def kpi_of_def plus64_def sum64_def toDouble_numeral
  acme_env_def erp_def acme_erp_def acme_partner_def acme_documents_def document_def

lemma acme_response: "GET_stats acme_env acme_erp = json (StatsBody acme_stats)"
  by (simp add: eval_stats acme_stats_def)

lemma map_of_ensureBucket:
  "map_of (ensureBucket k s) k' =
     (if k' = k \<and> map_of s k = None then Some emptyBucket else map_of s k')"
  by (auto simp: ensureBucket_def map_add_def split: option.splits)

lemma map_of_updateBucket:
  "map_of (updateBucket k ord s) k' =
     (if k' = k then map_option (addOrder ord) (map_of s k) else map_of s k')"
  by (induction s) (auto simp: updateBucket_def)

lemma ordersAt_step:
  "ordersAt (updateBucket k ord (ensureBucket k s)) k' =
     (if k' = k then ordersAt s k @ [ord] else ordersAt s k')"
  by (auto simp: ordersAt_def map_of_updateBucket map_of_ensureBucket addOrder_def emptyBucket_def
           split: option.splits)

lemma forEachInvoice_orders:
  "forEachInvoice invs acc = Inr acc' \<Longrightarrow>
   ordersAt (snd acc') k = ordersAt (snd acc) k @ map orderOf (filter (\<lambda>iv. addressName iv = k) invs)"
proof (induction invs arbitrary: acc)
  case Nil
  then show ?case by simp
next
  case (Cons iv invs)
  from Cons.prems obtain acc1 where
    s1: "processInvoice acc iv = Inr acc1" and s2: "forEachInvoice invs acc1 = Inr acc'"
    by (auto split: sum.splits)
  from s1 have "snd acc1 = updateBucket (addressName iv) (orderOf iv) (ensureBucket (addressName iv) (snd acc))"
    by (auto simp: processInvoice_def Let_def orderOf_def split: if_splits)
  then have "ordersAt (snd acc1) k =
      (if k = addressName iv then ordersAt (snd acc) k @ [orderOf iv] else ordersAt (snd acc) k)"
    by (simp add: ordersAt_step)
  with Cons.IH[OF s2] show ?case by auto
qed

lemma aggregate_buckets:
  assumes "aggregate p invs = Inr s" and "(k, b) \<in> set (salesByAddress s)"
  shows "bucket_orders b = map orderOf (filter (\<lambda>iv. addressName iv = k) invs)"
    and "bucket_total b = sum64 (map amount (bucket_orders b))"
    and "bucket_count b = length (bucket_orders b)"
proof -
  have f: "forEachInvoice invs (0, []) = Inr (revenue (stats_kpi s), salesByAddress s)"
    using assms(1) by (rule aggregate_forEach)
  have "salesInv (0, []) 0" by (simp add: salesInv_def bucketCounts_def)
  with f have i: "salesInv (revenue (stats_kpi s), salesByAddress s) (0 + length invs)"
    by (rule forEachInvoice_inv)
  then have "distinct (map fst (salesByAddress s))" by (simp add: salesInv_def)
  with assms(2) have "map_of (salesByAddress s) k = Some b" by simp
  then have "ordersAt (salesByAddress s) k = bucket_orders b" by (simp add: ordersAt_def)
  with forEachInvoice_orders[OF f, of k] show "bucket_orders b = map orderOf (filter (\<lambda>iv. addressName iv = k) invs)"
    by (simp add: ordersAt_def)
  from i assms(2) have "bucketOk b" by (auto simp: salesInv_def list_all_iff)
  then show "bucket_total b = sum64 (map amount (bucket_orders b))"
    and "bucket_count b = length (bucket_orders b)"
    by (simp_all add: bucketOk_def)
qed

lemma aggregate_counts:
  assumes "aggregate p invs = Inr s"
  shows "orders (stats_kpi s) = bucketCounts (salesByAddress s)"
proof -
  have f: "forEachInvoice invs (0, []) = Inr (revenue (stats_kpi s), salesByAddress s)"
    using assms(1) by (rule aggregate_forEach)
  have "salesInv (0, []) 0" by (simp add: salesInv_def bucketCounts_def)
  with f have i: "salesInv (revenue (stats_kpi s), salesByAddress s) (0 + length invs)"
    by (rule forEachInvoice_inv)
  with aggregate_kpi[OF assms] show ?thesis
    by (simp add: salesInv_def)
qed

lemma GET_stats_aggregate:
  assumes "body (GET_stats e r) = StatsBody s"
    and "ODOO_CUSTOMER_REF e = Some c"
    and "read_partners r c = Inr (Some (p # ps))"
    and "read_invoices r (partner_id p) = Inr (Some invs)"
  shows "aggregate p invs = Inr s"
  using assms
  by (auto simp: GET_stats_def statsTry_def odooSearchRead_def json_status_def json_def
           split: if_splits sum.splits option.splits list.splits)

text \<open>
  Claim C2, as the code has it. In a successful stats response for the documents the
  ERP returned, the amount of a document is its total with the sign of its type: minus
  the absolute value for a credit note, the absolute value for any other document.
  The revenue is the sum of these amounts, added in the order of the documents; every
  bucket holds the amounts of the documents of its address in the order of the
  documents, with their sum as its total; and the invoice list carries the same
  amounts. Every sum is the one the loop computes, in double precision.
\<close>

theorem stats_accumulates_signed_totals:
  assumes "body (GET_stats e r) = StatsBody s"
    and "ODOO_CUSTOMER_REF e = Some c"
    and "read_partners r c = Inr (Some (p # ps))"
    and "read_invoices r (partner_id p) = Inr (Some invs)"
  shows "(\<forall>iv. amountTotal iv =
            (if move_type iv = ''out_refund'' then - \<bar>or0 (amount_total iv)\<bar>
             else \<bar>or0 (amount_total iv)\<bar>)) \<and>
         revenue (stats_kpi s) = sum64 (map amountTotal invs) \<and>
         (\<forall>(k, b) \<in> set (salesByAddress s).
            map amount (bucket_orders b) = map amountTotal (filter (\<lambda>iv. addressName iv = k) invs) \<and>
            bucket_total b = sum64 (map amountTotal (filter (\<lambda>iv. addressName iv = k) invs))) \<and>
         map amount_total (recentInvoices s) = map (\<lambda>iv. Some (amountTotal iv)) invs"
proof -
  have a: "aggregate p invs = Inr s" using assms by (rule GET_stats_aggregate)
  have 1: "\<forall>iv. amountTotal iv =
            (if move_type iv = ''out_refund'' then - \<bar>or0 (amount_total iv)\<bar>
             else \<bar>or0 (amount_total iv)\<bar>)"
    by (simp add: amountTotal_def)
  have 2: "revenue (stats_kpi s) = sum64 (map amountTotal invs)"
    using aggregate_kpi[OF a] by simp
  have 3: "\<forall>(k, b) \<in> set (salesByAddress s).
            map amount (bucket_orders b) = map amountTotal (filter (\<lambda>iv. addressName iv = k) invs) \<and>
            bucket_total b = sum64 (map amountTotal (filter (\<lambda>iv. addressName iv = k) invs))"
  proof (clarify, rule conjI)
    fix k b assume kb: "(k, b) \<in> set (salesByAddress s)"
    have o: "map amount (map orderOf (filter (\<lambda>iv. addressName iv = k) invs)) =
          map amountTotal (filter (\<lambda>iv. addressName iv = k) invs)"
      by (simp add: orderOf_def comp_def)
    from aggregate_buckets(1)[OF a kb] o
    show m: "map amount (bucket_orders b) = map amountTotal (filter (\<lambda>iv. addressName iv = k) invs)"
      by simp
    from aggregate_buckets(2)[OF a kb] m
    show "bucket_total b = sum64 (map amountTotal (filter (\<lambda>iv. addressName iv = k) invs))"
      by simp
  qed
  have 4: "map amount_total (recentInvoices s) = map (\<lambda>iv. Some (amountTotal iv)) invs"
    by (simp add: aggregate_recentInvoices[OF a] comp_def)
  from 1 2 3 4 show ?thesis by blast
qed

text \<open>
  Witness for C2: the three documents of partner 42, with the amounts 100, 50 and -30.
\<close>

theorem stats_accumulates_signed_totals_witness:
  "body (GET_stats acme_env acme_erp) = StatsBody acme_stats \<and>
   ODOO_CUSTOMER_REF acme_env = Some ''ACME-01'' \<and>
   read_partners acme_erp ''ACME-01'' = Inr (Some [acme_partner]) \<and>
   read_invoices acme_erp (partner_id acme_partner) = Inr (Some acme_documents) \<and>
   map amountTotal acme_documents = [100, 50, - 30] \<and>
   revenue (stats_kpi acme_stats) = sum64 (map amountTotal acme_documents) \<and>
   list_all (\<lambda>(k, b).
      map amount (bucket_orders b) = map amountTotal (filter (\<lambda>iv. addressName iv = k) acme_documents) \<and>
      bucket_total b = sum64 (map amountTotal (filter (\<lambda>iv. addressName iv = k) acme_documents)))
     (salesByAddress acme_stats) \<and>
   map amount_total (recentInvoices acme_stats) = map (\<lambda>iv. Some (amountTotal iv)) acme_documents"
proof -
  have b: "body (GET_stats acme_env acme_erp) = StatsBody acme_stats"
    by (simp add: acme_response json_def)
  have c: "ODOO_CUSTOMER_REF acme_env = Some ''ACME-01''" by (simp add: acme_env_def)
  have p: "read_partners acme_erp ''ACME-01'' = Inr (Some [acme_partner])"
    by (simp add: acme_erp_def erp_def)
  have i: "read_invoices acme_erp (partner_id acme_partner) = Inr (Some acme_documents)"
    by (simp add: acme_erp_def erp_def)
  have v: "map amountTotal acme_documents = [100, 50, - 30]"
    by (simp add: acme_documents_def document_def amountTotal_def or0_def toDouble_numeral)
  from stats_accumulates_signed_totals[OF b c p i] b c p i v show ?thesis
    unfolding list_all_iff by blast
qed

text \<open>
  Counterexample to C2 as stated: a single credit note with total 30.00 gives the
  revenue -30.00, which is not the absolute value 30.00 and is negative.
\<close>

theorem credit_note_not_absolute:
  "map_option revenue (kpi_of (GET_stats acme_env refund_erp)) = Some (- 30) \<and>
   map_option revenue (kpi_of (GET_stats acme_env refund_erp)) \<noteq> Some \<bar>30\<bar>"
  by (simp add: eval_stats refund_erp_def)


lemma revenueOf_Some:
  "revenueOf p invs = Some t \<Longrightarrow> t = sum64 (map amountTotal invs)"
  by (auto simp: revenueOf_def aggregate_kpi split: sum.splits)

text \<open>
  Claim C3. At its turn in the loop, a document among the fetched ones adds to the
  running revenue the absolute value of its total when it is an ordinary invoice, and
  minus the absolute value when it is a credit note: the two contribute with opposite
  signs. The documents after it are added to the result, and nothing takes an absolute
  value of the sum afterwards. The additions are those of the code, in double precision.
\<close>

theorem credit_note_opposite_sign:
  assumes "revenueOf p xs = Some t0"
    and "revenueOf p (xs @ d # ys) = Some t1"
  shows "t1 =
           foldl plus64
             (plus64 t0
                (if move_type d = ''out_refund'' then - \<bar>or0 (amount_total d)\<bar>
                 else \<bar>or0 (amount_total d)\<bar>))
             (map amountTotal ys)"
proof -
  from assms(1) have "t0 = sum64 (map amountTotal xs)" by (rule revenueOf_Some)
  moreover from assms(2) have "t1 = sum64 (map amountTotal (xs @ d # ys))"
    by (rule revenueOf_Some)
  ultimately have "t1 = foldl plus64 (plus64 t0 (amountTotal d)) (map amountTotal ys)"
    by (simp add: sum64_def)
  then show ?thesis by (simp add: amountTotal_def)
qed

text \<open>
  Witness for C3: after an invoice of 100.00, an invoice of 30.00 gives 130.00 and a
  credit note of 30.00 gives 70.00.
\<close>

theorem credit_note_opposite_sign_witness:
  "revenueOf acme_partner [document 1 ''out_invoice'' ''2026-04-10'' 100 ''ACME, Leith''] = Some 100 \<and>
   revenueOf acme_partner
     [document 1 ''out_invoice'' ''2026-04-10'' 100 ''ACME, Leith'',
      document 2 ''out_invoice'' ''2026-05-02'' 30 ''ACME, Leith''] = Some 130 \<and>
   revenueOf acme_partner
     [document 1 ''out_invoice'' ''2026-04-10'' 100 ''ACME, Leith'',
      document 3 ''out_refund'' ''2026-05-02'' 30 ''ACME, Leith''] = Some 70 \<and>
   (130::rat) = plus64 100 \<bar>30\<bar> \<and> (70::rat) = plus64 100 (- \<bar>30\<bar>) \<and>
   (130::rat) - 100 = \<bar>30\<bar> \<and> (70::rat) - 100 = - \<bar>30\<bar>"
proof -
  let ?d1 = "document 1 ''out_invoice'' ''2026-04-10'' 100 ''ACME, Leith''"
  let ?d2 = "document 2 ''out_invoice'' ''2026-05-02'' 30 ''ACME, Leith''"
  let ?d3 = "document 3 ''out_refund'' ''2026-05-02'' 30 ''ACME, Leith''"
  have r0: "revenueOf acme_partner [?d1] = Some 100"
    by (simp add: revenueOf_def eval_stats)
  have r1: "revenueOf acme_partner ([?d1] @ ?d2 # []) = Some 130"
    by (simp add: revenueOf_def eval_stats)
  have r2: "revenueOf acme_partner ([?d1] @ ?d3 # []) = Some 70"
    by (simp add: revenueOf_def eval_stats)
  from credit_note_opposite_sign[OF r0 r1] credit_note_opposite_sign[OF r0 r2] r0 r1 r2
  show ?thesis by (simp add: document_def or0_def toDouble_numeral)
qed

text \<open>
  Claim C4, as the code has it. A stats request with no customer reference in the
  configuration is answered with status 500 and the message that names the missing
  variable; with the reference set and one of the four connection settings missing, it
  is answered with status 500 and the message of the client.
\<close>

theorem missing_configuration_is_500:
  "(unset (ODOO_CUSTOMER_REF e) \<longrightarrow>
      GET e r (Some ''stats'') i =
        \<lparr>status = 500, body = ErrorBody ''Missing ODOO_CUSTOMER_REF environment variable''\<rparr>) \<and>
   (\<not> unset (ODOO_CUSTOMER_REF e) \<and>
    (unset (ODOO_URL e) \<or> unset (ODOO_DB e) \<or> unset (ODOO_USERNAME e) \<or> unset (ODOO_PASSWORD e)) \<longrightarrow>
      GET e r (Some ''stats'') i =
        \<lparr>status = 500,
         body = ErrorBody ''Failed to fetch Odoo data: Missing Odoo environment variables''\<rparr>)"
proof (intro conjI impI)
  assume "unset (ODOO_CUSTOMER_REF e)"
  then show "GET e r (Some ''stats'') i =
        \<lparr>status = 500, body = ErrorBody ''Missing ODOO_CUSTOMER_REF environment variable''\<rparr>"
    by (simp add: GET_def GET_stats_def json_status_def)
next
  assume a: "\<not> unset (ODOO_CUSTOMER_REF e) \<and>
    (unset (ODOO_URL e) \<or> unset (ODOO_DB e) \<or> unset (ODOO_USERNAME e) \<or> unset (ODOO_PASSWORD e))"
  then have "getOdooConfig e = Inl (JsError ''Missing Odoo environment variables'')"
    by (auto simp: getOdooConfig_def unset_def split: option.splits)
  then have "statsTry e r c = Inl (JsError ''Missing Odoo environment variables'')" for c
    by (simp add: statsTry_def odooSearchRead_def)
  with a show "GET e r (Some ''stats'') i =
        \<lparr>status = 500,
         body = ErrorBody ''Failed to fetch Odoo data: Missing Odoo environment variables''\<rparr>"
    by (simp add: GET_def GET_stats_def json_status_def)
qed

text \<open>
  Witness for C4: a configuration without the customer reference, and one without the
  URL.
\<close>

theorem missing_configuration_is_500_witness:
  "unset (ODOO_CUSTOMER_REF no_ref_env) \<and>
   GET no_ref_env acme_erp (Some ''stats'') None =
     \<lparr>status = 500, body = ErrorBody ''Missing ODOO_CUSTOMER_REF environment variable''\<rparr> \<and>
   \<not> unset (ODOO_CUSTOMER_REF no_url_env) \<and> unset (ODOO_URL no_url_env) \<and>
   GET no_url_env acme_erp (Some ''stats'') None =
     \<lparr>status = 500,
      body = ErrorBody ''Failed to fetch Odoo data: Missing Odoo environment variables''\<rparr>"
proof -
  have 1: "unset (ODOO_CUSTOMER_REF no_ref_env)"
    by (simp add: no_ref_env_def unset_def)
  have 2: "\<not> unset (ODOO_CUSTOMER_REF no_url_env)" "unset (ODOO_URL no_url_env)"
    by (simp_all add: no_url_env_def acme_env_def unset_def)
  from missing_configuration_is_500[of no_ref_env acme_erp None]
       missing_configuration_is_500[of no_url_env acme_erp None] 1 2
  show ?thesis by blast
qed

text \<open>
  Counterexample to C4 as stated: without the customer reference the status is 500,
  which is not between 400 and 499.
\<close>

theorem missing_reference_not_4xx:
  "status (GET no_ref_env acme_erp (Some ''stats'') None) = 500 \<and>
   \<not> (400 \<le> status (GET no_ref_env acme_erp (Some ''stats'') None) \<and>
      status (GET no_ref_env acme_erp (Some ''stats'') None) < 500)"
  by (simp add: GET_def GET_stats_def no_ref_env_def unset_def json_status_def)

lemma amounts_ensureBucket: "bucketAmounts (ensureBucket k s) = bucketAmounts s"
  by (simp add: ensureBucket_def bucketAmounts_def emptyBucket_def)

lemma amounts_updateBucket:
  "distinct (map fst s) \<Longrightarrow> k \<in> set (map fst s) \<Longrightarrow>
   bucketAmounts (updateBucket k ord s) = bucketAmounts s + amount ord"
proof (induction s)
  case Nil
  then show ?case by simp
next
  case (Cons kb s)
  obtain k' b where kb: "kb = (k', b)" by (cases kb)
  show ?case
  proof (cases "k' = k")
    case True
    with Cons.prems kb have "k \<notin> set (map fst s)" by auto
    then have "updateBucket k ord s = s" by (rule updateBucket_absent)
    then have "map (\<lambda>(k', b). if k' = k then (k', addOrder ord b) else (k', b)) s = s"
      by (simp add: updateBucket_def)
    with True kb show ?thesis
      by (simp add: updateBucket_def bucketAmounts_def addOrder_def)
  next
    case False
    with Cons kb show ?thesis
      by (simp add: updateBucket_def bucketAmounts_def)
  qed
qed

lemma forEachInvoice_amounts:
  "forEachInvoice invs acc = Inr acc' \<Longrightarrow> distinct (map fst (snd acc)) \<Longrightarrow>
   bucketAmounts (snd acc') = bucketAmounts (snd acc) + sum_list (map amountTotal invs)"
proof (induction invs arbitrary: acc)
  case Nil
  then show ?case by simp
next
  case (Cons iv invs)
  from Cons.prems(1) obtain acc1 where
    s1: "processInvoice acc iv = Inr acc1" and s2: "forEachInvoice invs acc1 = Inr acc'"
    by (auto split: sum.splits)
  let ?k = "addressName iv"
  let ?s = "ensureBucket ?k (snd acc)"
  from s1 have a1: "snd acc1 = updateBucket ?k (orderOf iv) ?s"
    by (auto simp: processInvoice_def Let_def orderOf_def split: if_splits)
  have d: "distinct (map fst ?s)" using Cons.prems(2) by (rule distinct_ensureBucket)
  have m: "?k \<in> set (map fst ?s)" by (rule key_in_ensureBucket)
  from amounts_updateBucket[OF d m]
  have "bucketAmounts (snd acc1) = bucketAmounts (snd acc) + amountTotal iv"
    by (simp add: a1 amounts_ensureBucket orderOf_def)
  moreover have "distinct (map fst (snd acc1))" using d by (simp add: a1 keys_updateBucket)
  ultimately show ?case using Cons.IH[OF s2] by simp
qed

lemma aggregate_amounts:
  assumes "aggregate p invs = Inr s"
  shows "bucketAmounts (salesByAddress s) = sum_list (map amountTotal invs)"
  using forEachInvoice_amounts[OF aggregate_forEach[OF assms]] by (simp add: bucketAmounts_def)

lemma GET_stats_StatsBody_invoices:
  assumes "body (GET_stats e r) = StatsBody s"
  obtains p invs where "aggregate p invs = Inr s"
    and "map listedAmount (recentInvoices s) = map amountTotal invs"
proof -
  from assms obtain p invs where a: "aggregate p invs = Inr s"
    by (rule GET_stats_StatsBody)
  have "map listedAmount (recentInvoices s) = map amountTotal invs"
    by (simp add: aggregate_recentInvoices[OF a] listedAmount_def comp_def)
  with a show ?thesis by (rule that)
qed

text \<open>
  Claim C9, as the code has it. In a successful stats response every bucket has as
  count the length of its list of orders and as total the sum of the amounts of its
  orders, added in their order in double precision; the invoice count of the KPI object
  is the sum of the counts of the buckets and the length of the invoice list; the
  revenue is the sum of the amounts of the invoice list, added in its order in double
  precision. The buckets hold exactly the amounts of the invoice list, so the exact
  sums of the two agree; the revenue and the bucket totals are rounded sums of
  different additions.
\<close>

theorem stats_buckets_consistent:
  assumes "body (GET_stats e r) = StatsBody s"
  shows "(\<forall>(k, b) \<in> set (salesByAddress s).
            bucket_count b = length (bucket_orders b) \<and>
            bucket_total b = sum64 (map amount (bucket_orders b))) \<and>
         orders (stats_kpi s) = sum_list (map (\<lambda>(k, b). bucket_count b) (salesByAddress s)) \<and>
         orders (stats_kpi s) = length (recentInvoices s) \<and>
         revenue (stats_kpi s) = sum64 (map listedAmount (recentInvoices s)) \<and>
         sum_list (map (\<lambda>(k, b). sum_list (map amount (bucket_orders b))) (salesByAddress s)) =
           sum_list (map listedAmount (recentInvoices s))"
proof -
  from assms obtain p invs where a: "aggregate p invs = Inr s"
    and l: "map listedAmount (recentInvoices s) = map amountTotal invs"
    by (rule GET_stats_StatsBody_invoices)
  have 1: "\<forall>(k, b) \<in> set (salesByAddress s).
            bucket_count b = length (bucket_orders b) \<and>
            bucket_total b = sum64 (map amount (bucket_orders b))"
    using aggregate_buckets(2,3)[OF a] by blast
  have 2: "orders (stats_kpi s) = sum_list (map (\<lambda>(k, b). bucket_count b) (salesByAddress s))"
    using aggregate_counts[OF a] by (simp add: bucketCounts_def case_prod_unfold)
  have 3: "orders (stats_kpi s) = length (recentInvoices s)"
    by (simp add: aggregate_kpi[OF a] aggregate_recentInvoices[OF a])
  have 4: "revenue (stats_kpi s) = sum64 (map listedAmount (recentInvoices s))"
    unfolding l by (simp add: aggregate_kpi[OF a])
  have 5: "sum_list (map (\<lambda>(k, b). sum_list (map amount (bucket_orders b))) (salesByAddress s)) =
           sum_list (map listedAmount (recentInvoices s))"
    unfolding l using aggregate_amounts[OF a] by (simp add: bucketAmounts_def case_prod_unfold)
  from 1 2 3 4 5 show ?thesis by blast
qed

text \<open>
  Witness for C9: the response for the three documents of partner 42.
\<close>

theorem stats_buckets_consistent_witness:
  "body (GET_stats acme_env acme_erp) = StatsBody acme_stats \<and>
   list_all (\<lambda>(k, b).
      bucket_count b = length (bucket_orders b) \<and>
      bucket_total b = sum64 (map amount (bucket_orders b))) (salesByAddress acme_stats) \<and>
   orders (stats_kpi acme_stats) = sum_list (map (\<lambda>(k, b). bucket_count b) (salesByAddress acme_stats)) \<and>
   orders (stats_kpi acme_stats) = length (recentInvoices acme_stats) \<and>
   revenue (stats_kpi acme_stats) = sum64 (map listedAmount (recentInvoices acme_stats)) \<and>
   sum64 (map listedAmount (recentInvoices acme_stats)) = 120 \<and>
   sum_list (map (\<lambda>(k, b). sum_list (map amount (bucket_orders b))) (salesByAddress acme_stats)) =
     sum_list (map listedAmount (recentInvoices acme_stats))"
proof -
  have b: "body (GET_stats acme_env acme_erp) = StatsBody acme_stats"
    by (simp add: acme_response json_def)
  have v: "sum64 (map listedAmount (recentInvoices acme_stats)) = 120"
    by (simp add: acme_stats_def acme_documents_def document_def listedAmount_def sum64_def
          plus64_def toDouble_numeral)
  from stats_buckets_consistent[OF b] b v show ?thesis
    unfolding list_all_iff by blast
qed

text \<open>
  Counterexample to C9 as stated: for invoices of 0.10 for one address and of 0.20 and
  0.30 for another, the bucket totals are the doubles 0.1 and 0.5 and the revenue is the
  double 0.6000000000000001, which is neither the exact sum of the two totals nor their
  sum in double precision (0.6).
\<close>

theorem revenue_not_sum_of_bucket_totals:
  "status (GET_stats acme_env cents_erp) = 200 \<and>
   map (\<lambda>kb. bucket_total (snd kb)) (sales_of (GET_stats acme_env cents_erp)) =
     [3602879701896397 / 36028797018963968, 1 / 2] \<and>
   map_option revenue (kpi_of (GET_stats acme_env cents_erp)) =
     Some (1351079888211149 / 2251799813685248) \<and>
   (1351079888211149 / 2251799813685248 :: rat) \<noteq> 3602879701896397 / 36028797018963968 + 1 / 2 \<and>
   (1351079888211149 / 2251799813685248 :: rat) \<noteq> plus64 (3602879701896397 / 36028797018963968) (1 / 2)"
  by code_simp

section \<open>The average invoice value\<close>


lemma guarded_div: "(if (n::nat) > 0 then js_div a (of_nat n) else Num 0) = (if n > 0 then Num (a / of_nat n) else Num 0)"
  by (simp add: js_div_def)


lemmas eval_client =
  utc_browser_def isoDate_def isDigit_def digitValue_def digitsValue_def monthLength_def
  isLeapYear_def acme_data_def purchase_def address_def allOrders_def sumAmounts_def or0_def
  inPeriod_jan_def inPeriod_apr_def financialYear_def Let_def js_div_def plus64_def toDouble_numeral


section \<open>Properties of the invoice operation\<close>


lemma GET_invoice_present:
  assumes "invoiceId = Some txt" and "txt \<noteq> []"
  shows "GET e r (Some ''invoice'') invoiceId =
           (case fetchLines e r (parseInt txt) of
              Inl err \<Rightarrow> json (ItemsBody [])
            | Inr lines \<Rightarrow> json (ItemsBody (map normalizeLine lines)))"
  using assms by (simp add: GET_def GET_invoice_def unset_def)

text \<open>
  Claim C5, as the code has it. An invoice request with an id is always answered with
  status 200 and a list of items, never with an error. The list is empty when the read
  of the move fails, when the read of the lines by their ids fails, when the second and
  the third tier both fail, and when the move has no line ids and the filtered search
  finds no line. When only the second tier fails, the answer is the filtered lines of
  the third tier.
\<close>

theorem invoice_degrades_to_items:
  assumes "invoiceId = Some txt" and "txt \<noteq> []"
  shows "status (GET e r (Some ''invoice'') invoiceId) = 200 \<and>
         (\<exists>its. body (GET e r (Some ''invoice'') invoiceId) = ItemsBody its) \<and>
         (odooSearchRead e r (read_move r (parseInt txt)) = Inl x \<longrightarrow>
            body (GET e r (Some ''invoice'') invoiceId) = ItemsBody []) \<and>
         (odooSearchRead e r (read_move r (parseInt txt)) = Inr rows \<and>
          lineIdsOf rows = Some ids \<and>
          odooSearchRead e r (read_lines_by_id r ids) = Inl x \<longrightarrow>
            body (GET e r (Some ''invoice'') invoiceId) = ItemsBody []) \<and>
         (odooSearchRead e r (read_move r (parseInt txt)) = Inr rows \<and>
          lineIdsOf rows = None \<and>
          odooSearchRead e r (read_lines_filtered r (parseInt txt)) = Inl x \<and>
          odooSearchRead e r (read_lines_raw r (parseInt txt)) = Inl x' \<longrightarrow>
            body (GET e r (Some ''invoice'') invoiceId) = ItemsBody []) \<and>
         (odooSearchRead e r (read_move r (parseInt txt)) = Inr rows \<and>
          lineIdsOf rows = None \<and>
          odooSearchRead e r (read_lines_filtered r (parseInt txt)) = Inl x \<and>
          odooSearchRead e r (read_lines_raw r (parseInt txt)) = Inr raw \<longrightarrow>
            body (GET e r (Some ''invoice'') invoiceId) =
              ItemsBody (map normalizeLine (filter keepLine (orEmpty raw)))) \<and>
         (odooSearchRead e r (read_move r (parseInt txt)) = Inr rows \<and>
          lineIdsOf rows = None \<and>
          odooSearchRead e r (read_lines_filtered r (parseInt txt)) = Inr (Some []) \<longrightarrow>
            body (GET e r (Some ''invoice'') invoiceId) = ItemsBody [])"
proof -
  note g = GET_invoice_present[OF assms, of e r]
  have 1: "status (GET e r (Some ''invoice'') invoiceId) = 200"
    by (simp add: g json_def split: sum.splits)
  have 2: "\<exists>its. body (GET e r (Some ''invoice'') invoiceId) = ItemsBody its"
    by (simp add: g json_def split: sum.splits)
  have 3: "odooSearchRead e r (read_move r (parseInt txt)) = Inl x \<longrightarrow>
            body (GET e r (Some ''invoice'') invoiceId) = ItemsBody []"
    by (simp add: g fetchLines_def json_def)
  have 4: "odooSearchRead e r (read_move r (parseInt txt)) = Inr rows \<and>
          lineIdsOf rows = Some ids \<and>
          odooSearchRead e r (read_lines_by_id r ids) = Inl x \<longrightarrow>
            body (GET e r (Some ''invoice'') invoiceId) = ItemsBody []"
    by (simp add: g fetchLines_def json_def)
  have 5: "odooSearchRead e r (read_move r (parseInt txt)) = Inr rows \<and>
          lineIdsOf rows = None \<and>
          odooSearchRead e r (read_lines_filtered r (parseInt txt)) = Inl x \<and>
          odooSearchRead e r (read_lines_raw r (parseInt txt)) = Inl x' \<longrightarrow>
            body (GET e r (Some ''invoice'') invoiceId) = ItemsBody []"
    by (simp add: g fetchLines_def json_def)
  have 6: "odooSearchRead e r (read_move r (parseInt txt)) = Inr rows \<and>
          lineIdsOf rows = None \<and>
          odooSearchRead e r (read_lines_filtered r (parseInt txt)) = Inl x \<and>
          odooSearchRead e r (read_lines_raw r (parseInt txt)) = Inr raw \<longrightarrow>
            body (GET e r (Some ''invoice'') invoiceId) =
              ItemsBody (map normalizeLine (filter keepLine (orEmpty raw)))"
    by (simp add: g fetchLines_def json_def)
  have 7: "odooSearchRead e r (read_move r (parseInt txt)) = Inr rows \<and>
          lineIdsOf rows = None \<and>
          odooSearchRead e r (read_lines_filtered r (parseInt txt)) = Inr (Some []) \<longrightarrow>
            body (GET e r (Some ''invoice'') invoiceId) = ItemsBody []"
    by (simp add: g fetchLines_def json_def orEmpty_def)
  from 1 2 3 4 5 6 7 show ?thesis by blast
qed

lemmas eval_invoice =
  odooSearchRead_def getOdooConfig_def odooLogin_def acme_env_def invoice_erp_def
  move_with_lines_def move_without_lines_def lineIdsOf_def orEmpty_def

lemma parseInt_examples:
  "parseInt ''17'' = Some 17" "parseInt '' -12ab'' = Some (- 12)"
  "parseInt ''0x1f'' = Some 31" "parseInt ''abc'' = None"
  by (simp_all add: parseInt_def isWhiteSpace_def isDigit_def digitValue_def digitsValue_def Let_def)

text \<open>
  Witness for C5: five answers of the ERP to the request for invoice 17, one for each
  case: the read of the move fails; the read by ids fails; both searches fail; the
  filtered search fails and the raw read returns a product line; the filtered search
  finds nothing.
\<close>

theorem invoice_degrades_to_items_witness:
  "odooSearchRead acme_env (invoice_erp (Inl fault) (Inr (Some [])) (Inr (Some [])) (Inr (Some [])))
     (Inl fault :: exn + move_row list option) = Inl fault \<and>
   GET acme_env (invoice_erp (Inl fault) (Inr (Some [])) (Inr (Some [])) (Inr (Some [])))
     (Some ''invoice'') (Some ''17'') = \<lparr>status = 200, body = ItemsBody []\<rparr> \<and>
   lineIdsOf (Some [\<lparr>invoice_line_ids = Some [11]\<rparr>]) = Some [11] \<and>
   GET acme_env (invoice_erp move_with_lines (Inl fault) (Inr (Some [])) (Inr (Some [])))
     (Some ''invoice'') (Some ''17'') = \<lparr>status = 200, body = ItemsBody []\<rparr> \<and>
   lineIdsOf (Some [\<lparr>invoice_line_ids = Some []\<rparr>]) = None \<and>
   GET acme_env (invoice_erp move_without_lines (Inr (Some [])) (Inl fault) (Inl fault))
     (Some ''invoice'') (Some ''17'') = \<lparr>status = 200, body = ItemsBody []\<rparr> \<and>
   GET acme_env (invoice_erp move_without_lines (Inr (Some [])) (Inl fault) (Inr (Some [product_line])))
     (Some ''invoice'') (Some ''17'') =
       \<lparr>status = 200, body = ItemsBody [normalizeLine product_line]\<rparr> \<and>
   GET acme_env (invoice_erp move_without_lines (Inr (Some [])) (Inr (Some [])) (Inr (Some [product_line])))
     (Some ''invoice'') (Some ''17'') = \<lparr>status = 200, body = ItemsBody []\<rparr>"
proof -
  let ?r1 = "invoice_erp (Inl fault) (Inr (Some [])) (Inr (Some [])) (Inr (Some []))"
  let ?r2 = "invoice_erp move_with_lines (Inl fault) (Inr (Some [])) (Inr (Some []))"
  let ?r3 = "invoice_erp move_without_lines (Inr (Some [])) (Inl fault) (Inl fault)"
  let ?r4 = "invoice_erp move_without_lines (Inr (Some [])) (Inl fault) (Inr (Some [product_line]))"
  let ?r5 = "invoice_erp move_without_lines (Inr (Some [])) (Inr (Some [])) (Inr (Some [product_line]))"
  have i: "Some ''17'' = Some ''17''" "''17'' \<noteq> []" by simp_all
  have k: "keepLine product_line" by (simp add: keepLine_def product_line_def or0_def toDouble_numeral)
  have h0: "odooSearchRead acme_env ?r1 (Inl fault :: exn + move_row list option) = Inl fault"
    by (simp add: eval_invoice)
  have h1: "odooSearchRead acme_env ?r1 (read_move ?r1 (parseInt ''17'')) = Inl fault"
    by (simp add: eval_invoice)
  have h2: "odooSearchRead acme_env ?r2 (read_move ?r2 (parseInt ''17'')) = Inr (Some [\<lparr>invoice_line_ids = Some [11]\<rparr>])"
    "lineIdsOf (Some [\<lparr>invoice_line_ids = Some [11]\<rparr>]) = Some [11]"
    "odooSearchRead acme_env ?r2 (read_lines_by_id ?r2 [11]) = Inl fault"
    by (simp_all add: eval_invoice)
  have h3: "odooSearchRead acme_env ?r3 (read_move ?r3 (parseInt ''17'')) = Inr (Some [\<lparr>invoice_line_ids = Some []\<rparr>])"
    "lineIdsOf (Some [\<lparr>invoice_line_ids = Some []\<rparr>]) = None"
    "odooSearchRead acme_env ?r3 (read_lines_filtered ?r3 (parseInt ''17'')) = Inl fault"
    "odooSearchRead acme_env ?r3 (read_lines_raw ?r3 (parseInt ''17'')) = Inl fault"
    by (simp_all add: eval_invoice)
  have h4: "odooSearchRead acme_env ?r4 (read_move ?r4 (parseInt ''17'')) = Inr (Some [\<lparr>invoice_line_ids = Some []\<rparr>])"
    "odooSearchRead acme_env ?r4 (read_lines_filtered ?r4 (parseInt ''17'')) = Inl fault"
    "odooSearchRead acme_env ?r4 (read_lines_raw ?r4 (parseInt ''17'')) = Inr (Some [product_line])"
    by (simp_all add: eval_invoice)
  have h5: "odooSearchRead acme_env ?r5 (read_move ?r5 (parseInt ''17'')) = Inr (Some [\<lparr>invoice_line_ids = Some []\<rparr>])"
    "odooSearchRead acme_env ?r5 (read_lines_filtered ?r5 (parseInt ''17'')) = Inr (Some [])"
    by (simp_all add: eval_invoice)
  have c1: "status (GET acme_env ?r1 (Some ''invoice'') (Some ''17'')) = 200"
    "body (GET acme_env ?r1 (Some ''invoice'') (Some ''17'')) = ItemsBody []"
    using invoice_degrades_to_items[OF i, of acme_env ?r1 fault] h1 by blast+
  have c2: "status (GET acme_env ?r2 (Some ''invoice'') (Some ''17'')) = 200"
    "body (GET acme_env ?r2 (Some ''invoice'') (Some ''17'')) = ItemsBody []"
    using invoice_degrades_to_items[OF i, of acme_env ?r2 fault _ "[11]"] h2 by blast+
  have c3: "status (GET acme_env ?r3 (Some ''invoice'') (Some ''17'')) = 200"
    "body (GET acme_env ?r3 (Some ''invoice'') (Some ''17'')) = ItemsBody []"
    using invoice_degrades_to_items[OF i, of acme_env ?r3 fault _ _ fault] h3 by blast+
  have c4: "status (GET acme_env ?r4 (Some ''invoice'') (Some ''17'')) = 200"
    "body (GET acme_env ?r4 (Some ''invoice'') (Some ''17'')) = ItemsBody [normalizeLine product_line]"
    using invoice_degrades_to_items[OF i, of acme_env ?r4 fault "Some [\<lparr>invoice_line_ids = Some []\<rparr>]" _ _ "Some [product_line]"] h4 h3(2) k
    by (simp_all add: orEmpty_def)
  have c5: "status (GET acme_env ?r5 (Some ''invoice'') (Some ''17'')) = 200"
    "body (GET acme_env ?r5 (Some ''invoice'') (Some ''17'')) = ItemsBody []"
    using invoice_degrades_to_items[OF i, of acme_env ?r5 _ "Some [\<lparr>invoice_line_ids = Some []\<rparr>]"] h5 h3(2)
    by simp_all
  have r: "resp = \<lparr>status = status resp, body = body resp\<rparr>" for resp :: response
    by (cases resp) simp
  from c1 c2 c3 c4 c5 h0 h2(2) h3(2)
  show ?thesis
    by (metis (no_types) r)
qed

text \<open>
  Counterexample to C5 as stated: the second tier fails, the third tier returns a
  product line with a positive subtotal, and the answer is that line, not an empty list.
\<close>

theorem second_tier_fault_returns_lines:
  "odooSearchRead acme_env
     (invoice_erp move_without_lines (Inr (Some [])) (Inl fault) (Inr (Some [product_line])))
     (read_lines_filtered
        (invoice_erp move_without_lines (Inr (Some [])) (Inl fault) (Inr (Some [product_line])))
        (parseInt ''17'')) = Inl fault \<and>
   body (GET acme_env
     (invoice_erp move_without_lines (Inr (Some [])) (Inl fault) (Inr (Some [product_line])))
     (Some ''invoice'') (Some ''17'')) =
     ItemsBody
       [\<lparr>item_id = 11, item_name = ''Widget'', item_quantity = 2, item_price_unit = 25 / 2,
         item_raw_subtotal = 25, item_account_id = Some 400, item_display_type = None\<rparr>] \<and>
   body (GET acme_env
     (invoice_erp move_without_lines (Inr (Some [])) (Inl fault) (Inr (Some [product_line])))
     (Some ''invoice'') (Some ''17'')) \<noteq> ItemsBody []"
  by (simp add: GET_def GET_invoice_def unset_def fetchLines_def eval_invoice keepLine_def
        normalizeLine_def product_line_def or0_def json_def Let_def toDouble_numeral double_samples)

section \<open>Properties of the spend by address\<close>


lemma assign_fresh:
  "k \<notin> set (map fst g) \<Longrightarrow> k \<noteq> ''__proto__'' \<Longrightarrow> assign k x g = g @ [(k, x)]"
  by (simp add: assign_def)

lemma assign_proto: "assign ''__proto__'' x g = g"
  by (simp add: assign_def)

lemma foldl_assign:
  assumes "distinct (map fst es)" and "set (map fst acc) \<inter> set (map fst es) = {}"
  shows "foldl (\<lambda>g e. if pos e then assign (fst e) (val e) g else g) acc es =
         acc @ map (\<lambda>e. (fst e, val e)) (filter (\<lambda>e. pos e \<and> fst e \<noteq> ''__proto__'') es)"
  using assms
proof (induction es arbitrary: acc)
  case Nil
  then show ?case by simp
next
  case (Cons e es)
  let ?acc = "if pos e then assign (fst e) (val e) acc else acc"
  have fresh: "fst e \<notin> set (map fst acc)" using Cons.prems(2) by auto
  have acc: "?acc = acc @ (if pos e \<and> fst e \<noteq> ''__proto__'' then [(fst e, val e)] else [])"
    using fresh by (auto simp: assign_fresh assign_proto)
  have "set (map fst ?acc) \<subseteq> insert (fst e) (set (map fst acc))"
    unfolding acc by auto
  moreover have "fst e \<notin> set (map fst es)" using Cons.prems(1) by simp
  moreover have "set (map fst acc) \<inter> set (map fst es) = {}" using Cons.prems(2) by auto
  ultimately have d: "set (map fst ?acc) \<inter> set (map fst es) = {}" by blast
  have "foldl (\<lambda>g e. if pos e then assign (fst e) (val e) g else g) ?acc es =
        ?acc @ map (\<lambda>e. (fst e, val e)) (filter (\<lambda>e. pos e \<and> fst e \<noteq> ''__proto__'') es)"
    using Cons.prems(1) d by (intro Cons.IH) simp_all
  then show ?case by (simp add: acc)
qed

lemma aggregated_jan:
  assumes "distinct (map fst es)"
  shows "foldl (aggregateAddress_jan b y v) [] es =
         map (\<lambda>e. (fst e, sumAmounts (filter (inPeriod_jan b y v) (as_orders (snd e)))))
           (filter (\<lambda>e. 0 < sumAmounts (filter (inPeriod_jan b y v) (as_orders (snd e))) \<and>
                         fst e \<noteq> ''__proto__'') es)"
proof -
  have "aggregateAddress_jan b y v =
        (\<lambda>g e. if 0 < sumAmounts (filter (inPeriod_jan b y v) (as_orders (snd e)))
                then assign (fst e) (sumAmounts (filter (inPeriod_jan b y v) (as_orders (snd e)))) g
                else g)"
    by (intro ext) (simp add: aggregateAddress_jan_def Let_def)
  then show ?thesis using foldl_assign[OF assms, of "[]"] by simp
qed

lemma aggregated_apr:
  assumes "distinct (map fst es)"
  shows "foldl (aggregateAddress_apr b y v) [] es =
         map (\<lambda>e. (fst e, sumAmounts (filter (inPeriod_apr b y v) (as_orders (snd e))),
                           filter (inPeriod_apr b y v) (as_orders (snd e))))
           (filter (\<lambda>e. 0 < sumAmounts (filter (inPeriod_apr b y v) (as_orders (snd e))) \<and>
                         fst e \<noteq> ''__proto__'') es)"
proof -
  have "aggregateAddress_apr b y v =
        (\<lambda>g e. if 0 < sumAmounts (filter (inPeriod_apr b y v) (as_orders (snd e)))
                then assign (fst e) (sumAmounts (filter (inPeriod_apr b y v) (as_orders (snd e))),
                                     filter (inPeriod_apr b y v) (as_orders (snd e))) g
                else g)"
    by (intro ext) (simp add: aggregateAddress_apr_def Let_def)
  then show ?thesis using foldl_assign[OF assms, of "[]"] by simp
qed

lemma bars_jan:
  assumes "distinct (map fst (data_salesByAddress d))"
  shows "set (deliveryBarData_jan b (Some d) y v) =
         (\<lambda>e. \<lparr>bar_name = barName (data_customer d) (fst e), bar_fullName = fst e,
                bar_value = sumAmounts (filter (inPeriod_jan b y v) (as_orders (snd e)))\<rparr>) `
         {e \<in> set (data_salesByAddress d).
            0 < sumAmounts (filter (inPeriod_jan b y v) (as_orders (snd e))) \<and> fst e \<noteq> ''__proto__''}"
  by (simp add: deliveryBarData_jan_def Let_def aggregated_jan[OF assms] image_image
        case_prod_unfold comp_def image_Collect)

lemma bars_apr:
  assumes "distinct (map fst (data_salesByAddress d))"
  shows "set (deliveryBarData_apr b (Some d) y v) =
         (\<lambda>e. \<lparr>bar_name = barName (data_customer d) (fst e), bar_fullName = fst e,
                bar_value = sumAmounts (filter (inPeriod_apr b y v) (as_orders (snd e))),
                bar_orders = filter (inPeriod_apr b y v) (as_orders (snd e))\<rparr>) `
         {e \<in> set (data_salesByAddress d).
            0 < sumAmounts (filter (inPeriod_apr b y v) (as_orders (snd e))) \<and> fst e \<noteq> ''__proto__''}"
  by (simp add: deliveryBarData_apr_def Let_def aggregated_apr[OF assms] image_image
        case_prod_unfold comp_def image_Collect)


lemma key_in_filtered:
  assumes "distinct (map fst es)" and "(k, st) \<in> set es"
  shows "(k \<in> fst ` {e \<in> set es. P (snd e) \<and> fst e \<noteq> q}) = (P st \<and> k \<noteq> q)"
proof
  assume "k \<in> fst ` {e \<in> set es. P (snd e) \<and> fst e \<noteq> q}"
  then obtain st' where m: "(k, st') \<in> set es" and p: "P st'" "k \<noteq> q" by auto
  from assms m have "st' = st" by (meson eq_key_imp_eq_value)
  with p show "P st \<and> k \<noteq> q" by simp
next
  assume "P st \<and> k \<noteq> q"
  with assms(2) have "(k, st) \<in> {e \<in> set es. P (snd e) \<and> fst e \<noteq> q}" by simp
  then show "k \<in> fst ` {e \<in> set es. P (snd e) \<and> fst e \<noteq> q}" by force
qed

lemma fullNames_jan:
  assumes "distinct (map fst (data_salesByAddress d))"
  shows "bar_fullName ` set (deliveryBarData_jan b (Some d) y v) =
         fst ` {e \<in> set (data_salesByAddress d).
            0 < sumAmounts (filter (inPeriod_jan b y v) (as_orders (snd e))) \<and> fst e \<noteq> ''__proto__''}"
  by (simp add: bars_jan[OF assms] image_image)

lemma fullNames_apr:
  assumes "distinct (map fst (data_salesByAddress d))"
  shows "bar_fullName ` set (deliveryBarData_apr b (Some d) y v) =
         fst ` {e \<in> set (data_salesByAddress d).
            0 < sumAmounts (filter (inPeriod_apr b y v) (as_orders (snd e))) \<and> fst e \<noteq> ''__proto__''}"
  by (simp add: bars_apr[OF assms] image_image)

text \<open>
  Claim C10, as the code has it. On both pages an address of the response is among the
  bars of the spend by address exactly when the sum of its orders in the selected
  period, as the page computes it, is strictly positive (the key \<open>__proto__\<close>, which no
  stats response has, apart); an address for which that sum is zero or less has no bar.
  The page adds the amounts of the period to 0 one after the other, in the order of the
  list and in double precision, and this rounded sum can be positive when the exact
  one is zero. Every bar is the bar of an address of the response and carries that
  positive sum.
\<close>

theorem address_shown_iff_positive:
  assumes "distinct (map fst (data_salesByAddress d))"
    and "(k, st) \<in> set (data_salesByAddress d)"
  shows "(k \<in> bar_fullName ` set (deliveryBarData_jan b (Some d) y v)) =
           (0 < sumAmounts (filter (inPeriod_jan b y v) (as_orders st)) \<and> k \<noteq> ''__proto__'') \<and>
         (k \<in> bar_fullName ` set (deliveryBarData_apr b (Some d) y v)) =
           (0 < sumAmounts (filter (inPeriod_apr b y v) (as_orders st)) \<and> k \<noteq> ''__proto__'') \<and>
         (\<forall>e \<in> set (deliveryBarData_jan b (Some d) y v).
            \<exists>st'. (bar_fullName e, st') \<in> set (data_salesByAddress d) \<and>
                  bar_value e = sumAmounts (filter (inPeriod_jan b y v) (as_orders st')) \<and>
                  0 < bar_value e) \<and>
         (\<forall>e \<in> set (deliveryBarData_apr b (Some d) y v).
            \<exists>st'. (bar_fullName e, st') \<in> set (data_salesByAddress d) \<and>
                  bar_value e = sumAmounts (filter (inPeriod_apr b y v) (as_orders st')) \<and>
                  0 < bar_value e)"
proof -
  have 1: "(k \<in> bar_fullName ` set (deliveryBarData_jan b (Some d) y v)) =
           (0 < sumAmounts (filter (inPeriod_jan b y v) (as_orders st)) \<and> k \<noteq> ''__proto__'')"
    unfolding fullNames_jan[OF assms(1)]
    by (rule key_in_filtered[OF assms,
          of "\<lambda>s. 0 < sumAmounts (filter (inPeriod_jan b y v) (as_orders s))"])
  have 2: "(k \<in> bar_fullName ` set (deliveryBarData_apr b (Some d) y v)) =
           (0 < sumAmounts (filter (inPeriod_apr b y v) (as_orders st)) \<and> k \<noteq> ''__proto__'')"
    unfolding fullNames_apr[OF assms(1)]
    by (rule key_in_filtered[OF assms,
          of "\<lambda>s. 0 < sumAmounts (filter (inPeriod_apr b y v) (as_orders s))"])
  have 3: "\<forall>e \<in> set (deliveryBarData_jan b (Some d) y v).
            \<exists>st'. (bar_fullName e, st') \<in> set (data_salesByAddress d) \<and>
                  bar_value e = sumAmounts (filter (inPeriod_jan b y v) (as_orders st')) \<and>
                  0 < bar_value e"
    unfolding bars_jan[OF assms(1)] by fastforce
  have 4: "\<forall>e \<in> set (deliveryBarData_apr b (Some d) y v).
            \<exists>st'. (bar_fullName e, st') \<in> set (data_salesByAddress d) \<and>
                  bar_value e = sumAmounts (filter (inPeriod_apr b y v) (as_orders st')) \<and>
                  0 < bar_value e"
    unfolding bars_apr[OF assms(1)] by fastforce
  from 1 2 3 4 show ?thesis by blast
qed


text \<open>
  Witness for C10: in the sample data the orders of Fife sum to 0 in 2026 and Fife has
  no bar; those of Leith, with a credit note, sum to 70 and Leith has a bar.
\<close>

theorem address_shown_iff_positive_witness:
  "distinct (map fst (data_salesByAddress acme_data)) \<and>
   (''ACME, Fife'', address [purchase 4 ''2026-05-03'' 20, purchase 5 ''2026-05-09'' (- 20)])
     \<in> set (data_salesByAddress acme_data) \<and>
   sumAmounts (filter (inPeriod_jan utc_browser 2026 Year)
     [purchase 4 ''2026-05-03'' 20, purchase 5 ''2026-05-09'' (- 20)]) = 0 \<and>
   ''ACME, Fife'' \<notin> bar_fullName ` set (deliveryBarData_jan utc_browser (Some acme_data) 2026 Year) \<and>
   ''ACME, Fife'' \<notin> bar_fullName ` set (deliveryBarData_apr utc_browser (Some acme_data) 2026 Year) \<and>
   (''ACME, Leith'', address [purchase 1 ''2026-04-10'' 100, purchase 3 ''2026-05-20'' (- 30)])
     \<in> set (data_salesByAddress acme_data) \<and>
   sumAmounts (filter (inPeriod_apr utc_browser 2026 Year)
     [purchase 1 ''2026-04-10'' 100, purchase 3 ''2026-05-20'' (- 30)]) = 70 \<and>
   ''ACME, Leith'' \<in> bar_fullName ` set (deliveryBarData_jan utc_browser (Some acme_data) 2026 Year) \<and>
   ''ACME, Leith'' \<in> bar_fullName ` set (deliveryBarData_apr utc_browser (Some acme_data) 2026 Year)"
proof -
  let ?fife = "[purchase 4 ''2026-05-03'' 20, purchase 5 ''2026-05-09'' (- 20)]"
  let ?leith = "[purchase 1 ''2026-04-10'' 100, purchase 3 ''2026-05-20'' (- 30)]"
  have d: "distinct (map fst (data_salesByAddress acme_data))"
    by (simp add: acme_data_def)
  have f: "(''ACME, Fife'', address ?fife) \<in> set (data_salesByAddress acme_data)"
    and l: "(''ACME, Leith'', address ?leith) \<in> set (data_salesByAddress acme_data)"
    by (simp_all add: acme_data_def)
  have sf: "sumAmounts (filter (inPeriod_jan utc_browser 2026 Year) ?fife) = 0"
    "sumAmounts (filter (inPeriod_apr utc_browser 2026 Year) ?fife) = 0"
    by (simp_all add: eval_client)
  have sl: "sumAmounts (filter (inPeriod_jan utc_browser 2026 Year) ?leith) = 70"
    "sumAmounts (filter (inPeriod_apr utc_browser 2026 Year) ?leith) = 70"
    by (simp_all add: eval_client)
  from address_shown_iff_positive[OF d f, of utc_browser 2026 Year] sf
  have nf: "''ACME, Fife'' \<notin> bar_fullName ` set (deliveryBarData_jan utc_browser (Some acme_data) 2026 Year)"
    "''ACME, Fife'' \<notin> bar_fullName ` set (deliveryBarData_apr utc_browser (Some acme_data) 2026 Year)"
    by (simp_all add: address_def)
  from address_shown_iff_positive[OF d l, of utc_browser 2026 Year] sl
  have nl: "''ACME, Leith'' \<in> bar_fullName ` set (deliveryBarData_jan utc_browser (Some acme_data) 2026 Year)"
    "''ACME, Leith'' \<in> bar_fullName ` set (deliveryBarData_apr utc_browser (Some acme_data) 2026 Year)"
    by (simp_all add: address_def)
  from d f l sf sl nf nl show ?thesis by blast
qed

text \<open>
  Counterexample to C10 as stated: the amounts of the address Oban sum to zero, as
  decimal numbers and as the doubles the page reads, but added from 0 in double
  precision in the order of the list they give 4.44e-16, which is positive, and both
  pages show a bar for the address.
\<close>

theorem zero_sum_address_shown:
  "sum_list (map (\<lambda>ord. case o_amount ord of None \<Rightarrow> 0 | Some a \<Rightarrow> a) oban_orders) = 0 \<and>
   sum_list (map (\<lambda>ord. or0 (o_amount ord)) oban_orders) = 0 \<and>
   filter (inPeriod_jan utc_browser 2026 Year) oban_orders = oban_orders \<and>
   filter (inPeriod_apr utc_browser 2026 Year) oban_orders = oban_orders \<and>
   sumAmounts oban_orders = 1 / 2251799813685248 \<and>
   map bar_fullName (deliveryBarData_jan utc_browser (Some oban_data) 2026 Year) = [''ACME, Oban''] \<and>
   map bar_value (deliveryBarData_jan utc_browser (Some oban_data) 2026 Year) = [1 / 2251799813685248] \<and>
   map bar_fullName (deliveryBarData_apr utc_browser (Some oban_data) 2026 Year) = [''ACME, Oban''] \<and>
   map bar_value (deliveryBarData_apr utc_browser (Some oban_data) 2026 Year) = [1 / 2251799813685248]"
  by code_simp









section \<open>Properties of the trend chart\<close>


lemma digitValue_digitChar: "k < 10 \<Longrightarrow> digitValue (digitChar k) = Some k"
  by (simp add: digitValue_def digitChar_def Let_def)

lemma digitsValue_snoc:
  "digitsValue r (ds @ [c]) = digitsValue r ds * r + (case digitValue c of None \<Rightarrow> 0 | Some d \<Rightarrow> d)"
  by (simp add: digitsValue_def)

lemma digitsValue_toString: "digitsValue 10 (toString n) = n"
proof (induction n rule: toString.induct)
  case (1 n)
  show ?case
  proof (cases "n < 10")
    case True
    then show ?thesis
      by (subst toString.simps) (simp add: digitsValue_def digitValue_digitChar)
  next
    case False
    then have "digitsValue 10 (toString (n div 10)) = n div 10" by (rule "1.IH")
    with False show ?thesis
      by (subst toString.simps) (simp add: digitsValue_snoc digitValue_digitChar)
  qed
qed

lemma toString_inj: "toString a = toString b \<Longrightarrow> a = b"
  by (metis digitsValue_toString)

lemma distinct_toString: "distinct (map toString [i ..< j])"
  by (simp add: distinct_map inj_on_def toString_inj)

lemma map_of_addTo:
  "map_of g k = Some x \<Longrightarrow>
   map_of (addTo k' a g) k = (if k = k' then Some (js_add x (Num a)) else Some x)"
proof -
  assume s: "map_of g k = Some x"
  have m: "map_of (map (\<lambda>(k'', v). if k'' = k' then (k'', js_add v (Num a)) else (k'', v)) h) k =
        (if k = k' then map_option (\<lambda>v. js_add v (Num a)) (map_of h k) else map_of h k)" for h
    by (induction h) auto
  show ?thesis
  proof (cases "k' \<in> set (map fst g)")
    case True
    then show ?thesis using s by (auto simp: addTo_def m)
  next
    case False
    with s have "k \<noteq> k'" by (metis map_of_eq_None_iff option.distinct(1) set_map)
    with False s show ?thesis by (simp add: addTo_def map_add_def)
  qed
qed

lemma keys_addTo:
  "map fst (addTo k a g) = (if k \<in> set (map fst g) then map fst g else map fst g @ [k])"
proof -
  have "map fst (map (\<lambda>(k'', v). if k'' = k then (k'', js_add v (Num a)) else (k'', v)) g) = map fst g"
    by (induction g) auto
  then show ?thesis by (simp add: addTo_def)
qed

lemma map_of_grouped:
  "map_of g k = Some (Num x) \<Longrightarrow>
   map_of (foldl (groupStep key) g os) k =
     Some (Num (foldl (\<lambda>sum ord. plus64 sum (or0 (o_amount ord))) x
                  (filter (\<lambda>ord. key ord = Some k) os)))"
proof (induction os arbitrary: g x)
  case Nil
  then show ?case by simp
next
  case (Cons ord os)
  show ?case
  proof (cases "key ord = Some k")
    case True
    with Cons.prems have "map_of (groupStep key g ord) k = Some (Num (plus64 x (or0 (o_amount ord))))"
      by (simp add: groupStep_def map_of_addTo)
    from Cons.IH[OF this] True show ?thesis by simp
  next
    case False
    with Cons.prems have "map_of (groupStep key g ord) k = Some (Num x)"
      by (auto simp: groupStep_def map_of_addTo split: option.splits)
    from Cons.IH[OF this] False show ?thesis by simp
  qed
qed

lemma keys_grouped:
  "list_all (\<lambda>ord. case key ord of None \<Rightarrow> True | Some k \<Rightarrow> k \<in> K) os \<Longrightarrow>
   K \<subseteq> set (map fst g) \<Longrightarrow>
   map fst (foldl (groupStep key) g os) = map fst g"
proof (induction os arbitrary: g)
  case Nil
  then show ?case by simp
next
  case (Cons ord os)
  from Cons.prems have k: "map fst (groupStep key g ord) = map fst g"
    by (auto simp: groupStep_def keys_addTo split: option.splits)
  from Cons.prems(1) have l: "list_all (\<lambda>ord. case key ord of None \<Rightarrow> True | Some k \<Rightarrow> k \<in> K) os"
    by simp
  from Cons.prems(2) have "K \<subseteq> set (map fst (groupStep key g ord))"
    unfolding k .
  from Cons.IH[OF l this] k show ?case by simp
qed

lemma assoc_list_eq:
  assumes "distinct (map fst g)" and "\<forall>k \<in> set (map fst g). map_of g k = Some (f k)"
  shows "g = map (\<lambda>k. (k, f k)) (map fst g)"
proof -
  have "p = (fst p, f (fst p))" if "p \<in> set g" for p
  proof -
    from that have "(fst p, snd p) \<in> set g" by simp
    with assms(1) have "map_of g (fst p) = Some (snd p)"
      by (simp only: map_of_eq_Some_iff)
    moreover from that assms(2) have "map_of g (fst p) = Some (f (fst p))" by auto
    ultimately show ?thesis by (cases p) simp
  qed
  then have "map (\<lambda>p. (fst p, f (fst p))) g = g" by (intro map_idI) simp
  then show ?thesis by (simp add: comp_def)
qed

lemma grouped_full:
  assumes "distinct ks"
    and "list_all (\<lambda>ord. case key ord of None \<Rightarrow> True | Some k \<Rightarrow> k \<in> set ks) os"
  shows "foldl (groupStep key) (map (\<lambda>k. (k, Num 0)) ks) os =
         map (\<lambda>k. (k, Num (sumAmounts (filter (\<lambda>ord. key ord = Some k) os)))) ks"
proof -
  let ?start = "map (\<lambda>k. (k, Num 0)) ks"
  let ?g = "foldl (groupStep key) ?start os"
  have kstart: "map fst ?start = ks" by (simp add: comp_def)
  have "set ks \<subseteq> set (map fst ?start)" unfolding kstart by simp
  from keys_grouped[OF assms(2) this] have keys: "map fst ?g = ks" by (simp add: comp_def)
  have "map_of ?g k = Some (Num (sumAmounts (filter (\<lambda>ord. key ord = Some k) os)))"
    if "k \<in> set ks" for k
  proof -
    from that have "map_of ?start k = Some (Num 0)"
      by (induction ks) auto
    from map_of_grouped[OF this, of key os] show ?thesis by (simp add: sumAmounts_def)
  qed
  then have "\<forall>k \<in> set (map fst ?g). map_of ?g k =
      Some (Num (sumAmounts (filter (\<lambda>ord. key ord = Some k) os)))"
    by (simp add: keys)
  from assoc_list_eq[OF _ this] assms(1) show ?thesis by (simp add: keys)
qed

lemma grouped_lookup:
  assumes "k \<in> set ks"
  shows "map_of (foldl (groupStep key) (map (\<lambda>k. (k, Num 0)) ks) os) k =
         Some (Num (sumAmounts (filter (\<lambda>ord. key ord = Some k) os)))"
proof -
  from assms have "map_of (map (\<lambda>k. (k, Num 0)) ks) k = Some (Num 0)"
    by (induction ks) auto
  from map_of_grouped[OF this, of key os] show ?thesis by (simp add: sumAmounts_def)
qed


lemma addDay_jan_step: "addDay_jan b y m = groupStep (dayKey b y m)"
  by (intro ext) (simp add: addDay_jan_def groupStep_def dayKey_def split: option.splits)

lemma addDay_apr_step: "addDay_apr b y m = groupStep (dayKey b y m)"
  by (intro ext) (simp add: addDay_apr_def groupStep_def dayKey_def split: option.splits)

lemma addMonth_jan_step: "addMonth_jan b y = groupStep (monthKey_jan b y)"
  by (intro ext) (simp add: addMonth_jan_def groupStep_def monthKey_jan_def split: option.splits)

lemma addMonth_apr_step: "addMonth_apr b y = groupStep (monthKey_apr b y)"
  by (intro ext) (simp add: addMonth_apr_def groupStep_def monthKey_apr_def split: option.splits)

lemma dayKey_onDay: "(dayKey b y m ord = Some (toString i)) = onDay b y m i ord"
  by (auto simp: dayKey_def onDay_def toString_inj split: option.splits)

lemma monthKey_jan_inMonth: "(monthKey_jan b y ord = Some n) = inMonth_jan b y n ord"
  by (auto simp: monthKey_jan_def inMonth_jan_def split: option.splits)

lemma monthKey_apr_inMonth: "(monthKey_apr b y ord = Some n) = inMonth_apr b y n ord"
  by (auto simp: monthKey_apr_def inMonth_apr_def split: option.splits)

lemma daysInMonth_calendar: "100 \<le> y \<Longrightarrow> m < 12 \<Longrightarrow> daysInMonth y m = monthLength y m"
  by (simp add: daysInMonth_def)

lemma year_chart:
  assumes "\<And>ord n. (key ord = Some n) = P n ord"
  shows "map (\<lambda>n. \<lparr>entry_name = n,
                  entry_value = map_of (foldl (groupStep key) (map (\<lambda>k. (k, Num 0)) ks) os) n\<rparr>) ks =
         map (\<lambda>n. \<lparr>entry_name = n, entry_value = Some (Num (sumAmounts (filter (P n) os)))\<rparr>) ks"
proof (rule map_cong[OF refl])
  fix n assume "n \<in> set ks"
  then show "\<lparr>entry_name = n,
               entry_value = map_of (foldl (groupStep key) (map (\<lambda>k. (k, Num 0)) ks) os) n\<rparr> =
             \<lparr>entry_name = n, entry_value = Some (Num (sumAmounts (filter (P n) os)))\<rparr>"
    by (simp add: grouped_lookup assms)
qed

lemma month_chart:
  assumes v: "list_all (\<lambda>ord. case newDate b (o_date ord) of None \<Rightarrow> True | Some dt \<Rightarrow> validDate dt) os"
  shows "map (\<lambda>(k, x). \<lparr>entry_name = k, entry_value = Some x\<rparr>)
           (foldl (groupStep (dayKey b y m))
              (map (\<lambda>i. (toString i, Num 0)) [1 ..< Suc (monthLength y m)]) os) =
         map (\<lambda>i. \<lparr>entry_name = toString i,
                  entry_value = Some (Num (sumAmounts (filter (onDay b y m i) os)))\<rparr>)
           [1 ..< Suc (monthLength y m)]"
proof -
  let ?ks = "map toString [1 ..< Suc (monthLength y m)]"
  have d: "distinct ?ks" by (rule distinct_toString)
  have "case dayKey b y m ord of None \<Rightarrow> True | Some k \<Rightarrow> k \<in> set ?ks" if "ord \<in> set os" for ord
  proof (cases "dayKey b y m ord")
    case None
    then show ?thesis by simp
  next
    case (Some k)
    then obtain dt where dt: "newDate b (o_date ord) = Some dt" "getFullYear dt = y"
      "getMonth dt = m" "k = toString (getDate dt)"
      by (auto simp: dayKey_def split: option.splits if_splits)
    from v that dt(1) have "validDate dt" by (auto simp: list_all_iff)
    with dt(2,3) have "1 \<le> getDate dt \<and> getDate dt \<le> monthLength y m"
      by (simp add: validDate_def)
    then have "getDate dt \<in> set [1 ..< Suc (monthLength y m)]" by auto
    then have "toString (getDate dt) \<in> set ?ks" by (simp only: set_map image_eqI)
    with Some dt(4) show ?thesis by (simp only: option.case)
  qed
  then have l: "list_all (\<lambda>ord. case dayKey b y m ord of None \<Rightarrow> True | Some k \<Rightarrow> k \<in> set ?ks) os"
    by (simp add: list_all_iff)
  have g: "map (\<lambda>i. (toString i, Num 0)) [1 ..< Suc (monthLength y m)] = map (\<lambda>k. (k, Num 0)) ?ks"
    by (simp add: comp_def)
  show ?thesis
    unfolding g grouped_full[OF d l]
    by (simp add: comp_def dayKey_onDay)
qed

text \<open>
  Claim C7. In the view of a year the chart has exactly the twelve monthly buckets, in
  the order of the months of the page, whatever the data and the browser; in the view
  of a month \<open>m\<close> it has exactly one bucket for every day of that month, in order. The
  value of a bucket is the sum of the amounts of the orders that fall into it, so a
  bucket that no order falls into is there with the value 0. The view of a month is
  stated for dates of the calendar and for years from 100 on, which the constructor of
  \<open>Date\<close> takes as they are.
\<close>

theorem chart_has_every_bucket:
  "chartData_jan b (Some d) y Year =
     map (\<lambda>n. \<lparr>entry_name = n,
               entry_value = Some (Num (sumAmounts (filter (inMonth_jan b y n) (allOrders d))))\<rparr>)
       [''Jan'', ''Feb'', ''Mar'', ''Apr'', ''May'', ''Jun'',
        ''Jul'', ''Aug'', ''Sep'', ''Oct'', ''Nov'', ''Dec''] \<and>
   chartData_apr b (Some d) y Year =
     map (\<lambda>n. \<lparr>entry_name = n,
               entry_value = Some (Num (sumAmounts (filter (inMonth_apr b y n) (allOrders d))))\<rparr>)
       [''Apr'', ''May'', ''Jun'', ''Jul'', ''Aug'', ''Sep'',
        ''Oct'', ''Nov'', ''Dec'', ''Jan'', ''Feb'', ''Mar''] \<and>
   (validDates b d \<and> m < 12 \<and> 100 \<le> y \<longrightarrow>
      chartData_jan b (Some d) y (Month m) =
        map (\<lambda>i. \<lparr>entry_name = toString i,
                  entry_value = Some (Num (sumAmounts (filter (onDay b y m i) (allOrders d))))\<rparr>)
          [1 ..< Suc (monthLength y m)] \<and>
      chartData_apr b (Some d) y (Month m) =
        map (\<lambda>i. \<lparr>entry_name = toString i,
                  entry_value = Some (Num (sumAmounts (filter
                    (onDay b (if 9 \<le> m then y + 1 else y) ((m + 3) mod 12) i) (allOrders d))))\<rparr>)
          [1 ..< Suc (monthLength (if 9 \<le> m then y + 1 else y) ((m + 3) mod 12))])"
proof (intro conjI impI)
  have s: "map (take 3) MONTHS_jan =
      [''Jan'', ''Feb'', ''Mar'', ''Apr'', ''May'', ''Jun'',
       ''Jul'', ''Aug'', ''Sep'', ''Oct'', ''Nov'', ''Dec'']"
    by (simp add: MONTHS_jan_def)
  have g: "map (\<lambda>m. (take 3 m, Num 0)) MONTHS_jan = map (\<lambda>k. (k, Num 0)) (map (take 3) MONTHS_jan)"
    by (simp add: comp_def)
  show "chartData_jan b (Some d) y Year =
     map (\<lambda>n. \<lparr>entry_name = n,
               entry_value = Some (Num (sumAmounts (filter (inMonth_jan b y n) (allOrders d))))\<rparr>)
       [''Jan'', ''Feb'', ''Mar'', ''Apr'', ''May'', ''Jun'',
        ''Jul'', ''Aug'', ''Sep'', ''Oct'', ''Nov'', ''Dec'']"
    unfolding chartData_jan_def Let_def addMonth_jan_step g
    using year_chart[of "monthKey_jan b y" "inMonth_jan b y" "map (take 3) MONTHS_jan" "allOrders d",
            OF monthKey_jan_inMonth]
    by (simp only: s option.case viewBy.case)
next
  have s: "map (take 3) MONTHS_apr =
      [''Apr'', ''May'', ''Jun'', ''Jul'', ''Aug'', ''Sep'',
       ''Oct'', ''Nov'', ''Dec'', ''Jan'', ''Feb'', ''Mar'']"
    by (simp add: MONTHS_apr_def)
  show "chartData_apr b (Some d) y Year =
     map (\<lambda>n. \<lparr>entry_name = n,
               entry_value = Some (Num (sumAmounts (filter (inMonth_apr b y n) (allOrders d))))\<rparr>)
       [''Apr'', ''May'', ''Jun'', ''Jul'', ''Aug'', ''Sep'',
        ''Oct'', ''Nov'', ''Dec'', ''Jan'', ''Feb'', ''Mar'']"
    unfolding chartData_apr_def Let_def addMonth_apr_step
    using year_chart[of "monthKey_apr b y" "inMonth_apr b y" "map (take 3) MONTHS_apr" "allOrders d",
            OF monthKey_apr_inMonth]
    by (simp only: s option.case viewBy.case)
next
  assume a: "validDates b d \<and> m < 12 \<and> 100 \<le> y"
  then have v: "list_all (\<lambda>ord. case newDate b (o_date ord) of None \<Rightarrow> True | Some dt \<Rightarrow> validDate dt)
      (allOrders d)"
    by (simp add: validDates_def)
  from a have n: "daysInMonth y m = monthLength y m" by (simp add: daysInMonth_calendar)
  show "chartData_jan b (Some d) y (Month m) =
        map (\<lambda>i. \<lparr>entry_name = toString i,
                  entry_value = Some (Num (sumAmounts (filter (onDay b y m i) (allOrders d))))\<rparr>)
          [1 ..< Suc (monthLength y m)]"
    unfolding chartData_jan_def Let_def addDay_jan_step
    using month_chart[OF v, of y m]
    by (simp only: n option.case viewBy.case)
next
  assume a: "validDates b d \<and> m < 12 \<and> 100 \<le> y"
  then have v: "list_all (\<lambda>ord. case newDate b (o_date ord) of None \<Rightarrow> True | Some dt \<Rightarrow> validDate dt)
      (allOrders d)"
    by (simp add: validDates_def)
  let ?y = "if 9 \<le> m then y + 1 else y"
  let ?m = "(m + 3) mod 12"
  from a have n: "daysInMonth ?y ?m = monthLength ?y ?m" by (simp add: daysInMonth_calendar)
  show "chartData_apr b (Some d) y (Month m) =
        map (\<lambda>i. \<lparr>entry_name = toString i,
                  entry_value = Some (Num (sumAmounts (filter (onDay b ?y ?m i) (allOrders d))))\<rparr>)
          [1 ..< Suc (monthLength ?y ?m)]"
    unfolding chartData_apr_def Let_def addDay_apr_step
    using month_chart[OF v, of ?y ?m]
    by (simp only: n option.case viewBy.case)
qed


lemma toString_values: "toString 1 = ''1''" "toString 11 = ''11''"
  by code_simp+

lemma acme_validDates: "validDates utc_browser acme_data"
  by (simp add: validDates_def validDate_def eval_client)

text \<open>
  Witness for C7: the sample data in the sample browser. February 2026 has 28 buckets
  on both pages (it is month 10 of the financial year 2025), the first empty with
  value 0 and the eleventh with the order of 10.00; the views of the year have 12
  buckets, among them an empty January and an empty June with value 0.
\<close>

theorem chart_has_every_bucket_witness:
  "validDates utc_browser acme_data \<and> (1::nat) < 12 \<and> (10::nat) < 12 \<and> (100::int) \<le> 2025 \<and>
   length (chartData_jan utc_browser (Some acme_data) 2026 (Month 1)) = 28 \<and>
   chartData_jan utc_browser (Some acme_data) 2026 (Month 1) ! 0 =
     \<lparr>entry_name = ''1'', entry_value = Some (Num 0)\<rparr> \<and>
   chartData_jan utc_browser (Some acme_data) 2026 (Month 1) ! 10 =
     \<lparr>entry_name = ''11'', entry_value = Some (Num 10)\<rparr> \<and>
   length (chartData_apr utc_browser (Some acme_data) 2025 (Month 10)) = 28 \<and>
   chartData_apr utc_browser (Some acme_data) 2025 (Month 10) ! 0 =
     \<lparr>entry_name = ''1'', entry_value = Some (Num 0)\<rparr> \<and>
   chartData_apr utc_browser (Some acme_data) 2025 (Month 10) ! 10 =
     \<lparr>entry_name = ''11'', entry_value = Some (Num 10)\<rparr> \<and>
   length (chartData_jan utc_browser (Some acme_data) 2026 Year) = 12 \<and>
   chartData_jan utc_browser (Some acme_data) 2026 Year ! 0 =
     \<lparr>entry_name = ''Jan'', entry_value = Some (Num 0)\<rparr> \<and>
   chartData_jan utc_browser (Some acme_data) 2026 Year ! 1 =
     \<lparr>entry_name = ''Feb'', entry_value = Some (Num 10)\<rparr> \<and>
   length (chartData_apr utc_browser (Some acme_data) 2026 Year) = 12 \<and>
   chartData_apr utc_browser (Some acme_data) 2026 Year ! 0 =
     \<lparr>entry_name = ''Apr'', entry_value = Some (Num 100)\<rparr> \<and>
   chartData_apr utc_browser (Some acme_data) 2026 Year ! 2 =
     \<lparr>entry_name = ''Jun'', entry_value = Some (Num 0)\<rparr>"
proof -
  note v = acme_validDates
  have ml: "monthLength 2026 1 = 28" by (simp add: monthLength_def isLeapYear_def)
  have d1: "sumAmounts (filter (onDay utc_browser 2026 1 1) (allOrders acme_data)) = 0"
    and d11: "sumAmounts (filter (onDay utc_browser 2026 1 11) (allOrders acme_data)) = 10"
    by (simp_all add: onDay_def eval_client)
  have jan: "sumAmounts (filter (inMonth_jan utc_browser 2026 ''Jan'') (allOrders acme_data)) = 0"
    and feb: "sumAmounts (filter (inMonth_jan utc_browser 2026 ''Feb'') (allOrders acme_data)) = 10"
    by (simp_all add: inMonth_jan_def MONTHS_jan_def eval_client)
  have apr: "sumAmounts (filter (inMonth_apr utc_browser 2026 ''Apr'') (allOrders acme_data)) = 100"
    and jun: "sumAmounts (filter (inMonth_apr utc_browser 2026 ''Jun'') (allOrders acme_data)) = 0"
    by (simp_all add: inMonth_apr_def MONTHS_jan_def eval_client)
  have h1: "validDates utc_browser acme_data \<and> (1::nat) < 12 \<and> (100::int) \<le> 2026"
    using v by simp
  have h2: "validDates utc_browser acme_data \<and> (10::nat) < 12 \<and> (100::int) \<le> 2025"
    using v by simp
  have e: "(if 9 \<le> (10::nat) then (2025::int) + 1 else 2025) = 2026" "((10::nat) + 3) mod 12 = 1"
    by simp_all
  note t1 = chart_has_every_bucket[of utc_browser acme_data 2026 1]
  note t2 = chart_has_every_bucket[of utc_browser acme_data 2025 10]
  have yj: "chartData_jan utc_browser (Some acme_data) 2026 Year =
     map (\<lambda>n. \<lparr>entry_name = n,
               entry_value = Some (Num (sumAmounts (filter (inMonth_jan utc_browser 2026 n) (allOrders acme_data))))\<rparr>)
       [''Jan'', ''Feb'', ''Mar'', ''Apr'', ''May'', ''Jun'',
        ''Jul'', ''Aug'', ''Sep'', ''Oct'', ''Nov'', ''Dec'']"
    by (rule t1[THEN conjunct1])
  have ya: "chartData_apr utc_browser (Some acme_data) 2026 Year =
     map (\<lambda>n. \<lparr>entry_name = n,
               entry_value = Some (Num (sumAmounts (filter (inMonth_apr utc_browser 2026 n) (allOrders acme_data))))\<rparr>)
       [''Apr'', ''May'', ''Jun'', ''Jul'', ''Aug'', ''Sep'',
        ''Oct'', ''Nov'', ''Dec'', ''Jan'', ''Feb'', ''Mar'']"
    by (rule t1[THEN conjunct2, THEN conjunct1])
  have mj: "chartData_jan utc_browser (Some acme_data) 2026 (Month 1) =
        map (\<lambda>i. \<lparr>entry_name = toString i,
                  entry_value = Some (Num (sumAmounts (filter (onDay utc_browser 2026 1 i) (allOrders acme_data))))\<rparr>)
          [1 ..< Suc 28]"
    using t1[THEN conjunct2, THEN conjunct2, rule_format, OF h1, THEN conjunct1]
    by (simp only: ml)
  have ma: "chartData_apr utc_browser (Some acme_data) 2025 (Month 10) =
        map (\<lambda>i. \<lparr>entry_name = toString i,
                  entry_value = Some (Num (sumAmounts (filter (onDay utc_browser 2026 1 i) (allOrders acme_data))))\<rparr>)
          [1 ..< Suc 28]"
    using t2[THEN conjunct2, THEN conjunct2, rule_format, OF h2, THEN conjunct2]
    by (simp only: e ml)
  have 1: "length (chartData_jan utc_browser (Some acme_data) 2026 (Month 1)) = 28"
    "length (chartData_apr utc_browser (Some acme_data) 2025 (Month 10)) = 28"
    unfolding mj ma by simp_all
  have 2: "chartData_jan utc_browser (Some acme_data) 2026 (Month 1) ! 0 =
     \<lparr>entry_name = ''1'', entry_value = Some (Num 0)\<rparr>"
    "chartData_apr utc_browser (Some acme_data) 2025 (Month 10) ! 0 =
     \<lparr>entry_name = ''1'', entry_value = Some (Num 0)\<rparr>"
    unfolding mj ma using d1 toString_values by simp_all
  have 3: "chartData_jan utc_browser (Some acme_data) 2026 (Month 1) ! 10 =
     \<lparr>entry_name = ''11'', entry_value = Some (Num 10)\<rparr>"
    "chartData_apr utc_browser (Some acme_data) 2025 (Month 10) ! 10 =
     \<lparr>entry_name = ''11'', entry_value = Some (Num 10)\<rparr>"
    unfolding mj ma using d11 toString_values by simp_all
  have 4: "length (chartData_jan utc_browser (Some acme_data) 2026 Year) = 12"
    "chartData_jan utc_browser (Some acme_data) 2026 Year ! 0 =
       \<lparr>entry_name = ''Jan'', entry_value = Some (Num 0)\<rparr>"
    "chartData_jan utc_browser (Some acme_data) 2026 Year ! 1 =
       \<lparr>entry_name = ''Feb'', entry_value = Some (Num 10)\<rparr>"
    unfolding yj by (simp_all add: jan feb)
  have 5: "length (chartData_apr utc_browser (Some acme_data) 2026 Year) = 12"
    "chartData_apr utc_browser (Some acme_data) 2026 Year ! 0 =
       \<lparr>entry_name = ''Apr'', entry_value = Some (Num 100)\<rparr>"
    "chartData_apr utc_browser (Some acme_data) 2026 Year ! 2 =
       \<lparr>entry_name = ''Jun'', entry_value = Some (Num 0)\<rparr>"
    unfolding ya by (simp_all add: apr jun)
  from v 1 2 3 4 5 show ?thesis by simp
qed

end
